theory Spec2Isabelle
  imports Main "HOL-Library.AList"
begin

section \<open>JavaScript strings\<close>

text \<open>
  The string operations \<open>lib/index.js\<close> uses. \<open>indexOf\<close> and \<open>lastIndexOf\<close> return
  \<open>None\<close> where JavaScript returns \<open>-1\<close>; \<open>substring(0, pos)\<close> is \<open>take pos\<close> and
  \<open>substring(pos + 1)\<close> is \<open>drop (Suc pos)\<close>. \<open>splitOn c\<close> is \<open>String.prototype.split\<close> with a
  separator of one character: the empty string splits into one empty segment.
\<close>

definition indexOf :: "char \<Rightarrow> string \<Rightarrow> nat option" where
  "indexOf c s = (if c \<in> set s then Some (length (takeWhile (\<lambda>x. x \<noteq> c) s)) else None)"

definition lastIndexOf :: "char \<Rightarrow> string \<Rightarrow> nat option" where
  "lastIndexOf c s =
     (if c \<in> set s then Some (length s - Suc (length (takeWhile (\<lambda>x. x \<noteq> c) (rev s)))) else None)"

fun splitOn :: "char \<Rightarrow> string \<Rightarrow> string list" where
  "splitOn c [] = [[]]"
| "splitOn c (x # xs) =
     (if x = c then [] # splitOn c xs
      else (case splitOn c xs of [] \<Rightarrow> [[x]] | w # ws \<Rightarrow> (x # w) # ws))"

fun joinSep :: "string \<Rightarrow> string list \<Rightarrow> string" where
  "joinSep sep [] = []"
| "joinSep sep [x] = x"
| "joinSep sep (x # y # ys) = x @ sep @ joinSep sep (y # ys)"

section \<open>The path module of the runtime\<close>

text \<open>
  \<open>lib.path\<close> is the POSIX \<open>path\<close> module of Node.js in the release line the library was
  written for (0.8: the library calls \<open>Proxy\<close> as a function through harmony-reflect and reads
  \<open>GLOBAL\<close>). \<open>normalizeArray\<close> walks the segments from the last to the first, dropping
  \<open>.\<close>, and dropping \<open>..\<close> together with the segment before it. An argument of \<open>join\<close> is
  \<open>Some s\<close> for a string and \<open>None\<close> for \<open>undefined\<close>; \<open>join\<close> skips every argument that is
  not a non-empty string. \<open>resolve\<close> reads its arguments from the last to the first until the
  path is absolute, and the working directory after them.
\<close>

fun normalizeArray_up :: "string list \<Rightarrow> string list \<times> nat" where
  "normalizeArray_up [] = ([], 0)"
| "normalizeArray_up (x # xs) =
     (case normalizeArray_up xs of (r, up) \<Rightarrow>
        if x = ''.'' then (r, up)
        else if x = ''..'' then (r, Suc up)
        else if 0 < up then (r, up - 1)
        else (x # r, up))"

definition normalizeArray :: "string list \<Rightarrow> bool \<Rightarrow> string list" where
  "normalizeArray parts allowAboveRoot =
     (case normalizeArray_up parts of (r, up) \<Rightarrow>
        if allowAboveRoot then replicate up ''..'' @ r else r)"

definition path_parts :: "string \<Rightarrow> string list" where
  "path_parts path = filter (\<lambda>p. p \<noteq> []) (splitOn CHR ''/'' path)"

definition path_normalize :: "string \<Rightarrow> string" where
  "path_normalize path =
     (let isAbsolute = (take 1 path = ''/'');
          trailingSlash = (path \<noteq> [] \<and> last path = CHR ''/'');
          p = joinSep ''/'' (normalizeArray (path_parts path) (\<not> isAbsolute));
          p1 = (if p = [] \<and> \<not> isAbsolute then ''.'' else p);
          p2 = (if p1 \<noteq> [] \<and> trailingSlash then p1 @ ''/'' else p1)
      in (if isAbsolute then ''/'' else []) @ p2)"

definition nonEmptyStrings :: "string option list \<Rightarrow> string list" where
  "nonEmptyStrings paths =
     concat (map (\<lambda>p. case p of None \<Rightarrow> [] | Some x \<Rightarrow> if x = [] then [] else [x]) paths)"

definition path_join :: "string option list \<Rightarrow> string" where
  "path_join paths = path_normalize (joinSep ''/'' (nonEmptyStrings paths))"

fun resolve_loop :: "string list \<Rightarrow> string \<times> bool \<Rightarrow> string \<times> bool" where
  "resolve_loop [] acc = acc"
| "resolve_loop (p # ps) (resolvedPath, resolvedAbsolute) =
     (if resolvedAbsolute then (resolvedPath, resolvedAbsolute)
      else if p = [] then resolve_loop ps (resolvedPath, resolvedAbsolute)
      else resolve_loop ps (p @ ''/'' @ resolvedPath, take 1 p = ''/''))"

definition path_resolve :: "string \<Rightarrow> string list \<Rightarrow> string" where
  "path_resolve cwd args =
     (case resolve_loop (rev args @ [cwd]) ([], False) of (resolvedPath, resolvedAbsolute) \<Rightarrow>
        let r = (if resolvedAbsolute then ''/'' else []) @
                joinSep ''/'' (normalizeArray (path_parts resolvedPath) (\<not> resolvedAbsolute))
        in if r = [] then ''.'' else r)"

text \<open>
  \<open>basename\<close> of a path that does not end in a slash, which is every path \<open>join\<close> returns
  for a last argument that does not: the text after the last slash.
\<close>

definition path_basename :: "string \<Rightarrow> string" where
  "path_basename path = rev (takeWhile (\<lambda>x. x \<noteq> CHR ''/'') (rev path))"

section \<open>Values, errors, the environment and the module state\<close>

text \<open>
  A JavaScript value as far as the library looks at it. A function is identified with its
  source text, which is what it turns into when it is used as a property key. \<open>JObject\<close> is
  an object that the library did not build, named by a label. An object built by
  \<open>createComponent\<close> records its constructor, the constructor's arguments and the properties
  assigned to it afterwards, in assignment order.
\<close>

datatype jsval =
    JUndefined
  | JNull
  | JBool bool
  | JStr string
  | JFun string
  | JObject string
  | JInst string "jsval list" "(string \<times> jsval) list"

fun truthy :: "jsval \<Rightarrow> bool" where
  "truthy JUndefined = False"
| "truthy JNull = False"
| "truthy (JBool b) = b"
| "truthy (JStr s) = (s \<noteq> [])"
| "truthy (JFun f) = True"
| "truthy (JObject l) = True"
| "truthy (JInst c args props) = True"

fun toKey :: "jsval \<Rightarrow> string" where
  "toKey JUndefined = ''undefined''"
| "toKey JNull = ''null''"
| "toKey (JBool b) = (if b then ''true'' else ''false'')"
| "toKey (JStr s) = s"
| "toKey (JFun f) = f"
| "toKey (JObject l) = ''[object Object]''"
| "toKey (JInst c args props) = ''[object Object]''"

fun isObject :: "jsval \<Rightarrow> bool" where
  "isObject (JFun f) = True"
| "isObject (JObject l) = True"
| "isObject (JInst c args props) = True"
| "isObject v = False"

text \<open>
  An argument of \<open>path.join\<close>: a value that is not a string is skipped like \<open>undefined\<close>.
\<close>

fun toArg :: "jsval \<Rightarrow> string option" where
  "toArg (JStr s) = Some s"
| "toArg v = None"

text \<open>
  The errors the library raises are all \<open>Error\<close> objects told apart by their message; they are
  named here as the specification names them. \<open>TypeError\<close> is the runtime's own (a method
  called on a value that has none, a non-function constructed or called, a property of a
  locked object deleted in strict mode); \<open>LoadError\<close> is whatever \<open>require\<close> raises, and
  \<open>CallError\<close> whatever a function raises that is not the library's.
\<close>

datatype error =
    MultipleApplicationError
  | ConfigurationError
  | InvalidAlias
  | ClassFileMismatch
  | TypeError
  | LoadError
  | CallError

datatype ftype = File | Directory

text \<open>
  What the library reads from its surroundings: \<open>process.cwd()\<close>, \<open>__dirname\<close>,
  \<open>GLOBAL.YIILA_DEBUG\<close>, \<open>fs.statSync\<close> (\<open>None\<close> when it raises) and \<open>require\<close> (\<open>None\<close>
  when it raises). The last two fields stand for code that is not the library's:
  \<open>callFunction f x\<close> is what calling the function with source text \<open>f\<close> on the string
  \<open>x\<close> gives, \<open>None\<close> when it raises and otherwise whether the result is truthy, and
  \<open>propertyOf v k\<close> is what reading the property \<open>k\<close> of the object \<open>v\<close> gives. Such code
  (a module that \<open>require\<close> loads, a constructor, a \<open>dispose\<close> method) is taken not to
  touch the module's variables, and the library's methods, which call one another through
  \<open>this\<close>, are taken as the file defines them.
\<close>

record env =
  cwd :: string
  dirname :: string
  debug :: bool
  statSync :: "string \<Rightarrow> ftype option"
  require :: "string \<Rightarrow> jsval option"
  callFunction :: "string \<Rightarrow> string \<Rightarrow> bool option"
  propertyOf :: "jsval \<Rightarrow> string \<Rightarrow> jsval"

section \<open>Plain objects used as tables\<close>

text \<open>
  \<open>_aliases\<close>, \<open>_imports\<close>, \<open>_classMap\<close>, the proxy's target and a descriptor are plain
  objects: a read \<open>obj[k]\<close> that finds no own property goes on to \<open>Object.prototype\<close>.
  \<open>objectPrototype\<close> lists what every plain object inherits. The key \<open>__proto__\<close> is not a
  property of its own: reading it gives the prototype, assigning a value that is not an object
  or \<open>null\<close> to it does nothing, and \<open>hasOwnProperty\<close> never finds it.
\<close>

definition nativeHasOwnProperty :: jsval where
  "nativeHasOwnProperty = JFun ''function hasOwnProperty() { [native code] }''"

definition objectPrototype :: "(string \<times> jsval) list" where
  "objectPrototype =
     [(''constructor'', JFun ''function Object() { [native code] }''),
      (''toString'', JFun ''function toString() { [native code] }''),
      (''toLocaleString'', JFun ''function toLocaleString() { [native code] }''),
      (''valueOf'', JFun ''function valueOf() { [native code] }''),
      (''hasOwnProperty'', nativeHasOwnProperty),
      (''isPrototypeOf'', JFun ''function isPrototypeOf() { [native code] }''),
      (''propertyIsEnumerable'', JFun ''function propertyIsEnumerable() { [native code] }''),
      (''__defineGetter__'', JFun ''function __defineGetter__() { [native code] }''),
      (''__defineSetter__'', JFun ''function __defineSetter__() { [native code] }''),
      (''__lookupGetter__'', JFun ''function __lookupGetter__() { [native code] }''),
      (''__lookupSetter__'', JFun ''function __lookupSetter__() { [native code] }''),
      (''__proto__'', JObject ''Object.prototype'')]"

definition inheritedKeys :: "string list" where
  "inheritedKeys = map fst objectPrototype"

definition inherited :: "string \<Rightarrow> jsval" where
  "inherited k = (case map_of objectPrototype k of None \<Rightarrow> JUndefined | Some v \<Rightarrow> v)"

text \<open>
  \<open>tbl[k]\<close> in a condition, for a table whose own values are strings: \<open>None\<close> when the
  value read is falsy. An own empty string hides what is inherited.
\<close>

definition truthyEntry :: "(string \<rightharpoonup> string) \<Rightarrow> string \<Rightarrow> jsval option" where
  "truthyEntry tbl k =
     (case tbl k of
        Some p \<Rightarrow> if p = [] then None else Some (JStr p)
      | None \<Rightarrow> if truthy (inherited k) then Some (inherited k) else None)"

text \<open>
  \<open>tbl[k] = v\<close> for a string \<open>v\<close>.
\<close>

definition setKey :: "(string \<rightharpoonup> string) \<Rightarrow> string \<Rightarrow> string \<Rightarrow> (string \<rightharpoonup> string)" where
  "setKey tbl k v = (if k = ''__proto__'' then tbl else tbl(k \<mapsto> v))"

text \<open>
  \<open>obj.hasOwnProperty(x)\<close> is a call of whatever \<open>obj.hasOwnProperty\<close> reads: \<open>h\<close> is that
  value and \<open>own\<close> says whether \<open>x\<close> is an own property. Only the inherited function answers
  with \<open>own\<close>; an own property of that name is called if it is a function and raises a type
  error if it is not.
\<close>

definition hasOwnPropertyCall :: "env \<Rightarrow> jsval \<Rightarrow> bool \<Rightarrow> string \<Rightarrow> error + bool" where
  "hasOwnPropertyCall e h own x =
     (case h of
        JFun f \<Rightarrow>
          if h = nativeHasOwnProperty then Inr own
          else (case callFunction e f x of None \<Rightarrow> Inl CallError | Some b \<Rightarrow> Inr b)
      | _ \<Rightarrow> Inl TypeError)"

section \<open>The module state\<close>

text \<open>
  The module's variables \<open>_app\<close>, \<open>_imports\<close>, \<open>_aliases\<close>, \<open>_classMap\<close>,
  \<open>_includePaths\<close> (\<open>None\<close> while it is \<open>null\<close>) and \<open>Base\<close>, the proxy's target: its own
  properties, and its prototype once an assignment to \<open>__proto__\<close> has replaced
  \<open>Object.prototype\<close> (\<open>None\<close> until then). The maps hold own properties only. The target
  starts with the library's own methods, each a function expression without a name; its source
  text is written in short. An application instance is an object with a \<open>dispose\<close> method, as
  the parameter type of \<open>setApplication\<close> says, named by a number; \<open>disposed\<close> lists the
  instances whose \<open>dispose\<close> has been called, in call order.
\<close>

record state =
  v_app :: "nat option"
  disposed :: "nat list"
  v_imports :: "string \<rightharpoonup> string"
  v_aliases :: "string \<rightharpoonup> string"
  v_classMap :: "string \<rightharpoonup> string"
  v_includePaths :: "string list option"
  target :: "string \<rightharpoonup> jsval"
  targetProto :: "jsval option"

definition baseMethods :: "string list" where
  "baseMethods = [''app'', ''createApplication'', ''createConsoleApplication'', ''setApplication'',
     ''createComponent'', ''getPathOfAlias'', ''setPathOfAlias'', ''import'', ''getLogger'', ''log'',
     ''trace'', ''t'', ''clone'', ''extend'', ''inherits'']"

definition methodSource :: "string \<Rightarrow> string" where
  "methodSource m = ''function () { [body of '' @ m @ ''] }''"

definition initialState :: "env \<Rightarrow> state" where
  "initialState e =
     \<lparr> v_app = None, disposed = [], v_imports = Map.empty,
       v_aliases = [''system'' \<mapsto> dirname e], v_classMap = Map.empty,
       v_includePaths = None,
       target = map_of (map (\<lambda>m. (m, JFun (methodSource m))) baseMethods),
       targetProto = None \<rparr>"

section \<open>The application singleton\<close>

definition setApplication :: "state \<Rightarrow> nat option \<Rightarrow> (error + unit) \<times> state" where
  "setApplication s a =
     (if v_app s = None \<or> a = None then
        (case (a, v_app s) of
           (None, Some cur) \<Rightarrow> (Inr (), s\<lparr>disposed := disposed s @ [cur], v_app := a\<rparr>)
         | _ \<Rightarrow> (Inr (), s\<lparr>v_app := a\<rparr>))
      else (Inl MultipleApplicationError, s))"

section \<open>The alias resolver\<close>

text \<open>
  \<open>_aliases[k]\<close> in a condition.
\<close>

definition aliasOf :: "state \<Rightarrow> string \<Rightarrow> jsval option" where
  "aliasOf s k = truthyEntry (v_aliases s) k"

text \<open>
  \<open>delete args[args.length-1]\<close> leaves the array as long as it was, with a hole in the last
  place; \<open>join\<close> reads the hole as \<open>undefined\<close>.
\<close>

definition aliasArgs :: "string \<Rightarrow> string option list" where
  "aliasArgs rest =
     (let args = map Some (splitOn CHR ''.'' rest)
      in if last args = Some ''*'' then args[length args - 1 := None] else args)"

text \<open>
  \<open>getPathOfAlias\<close> returns \<open>false\<close> (\<open>None\<close>) or what it read or joined: a string, or for a
  key that every object inherits the inherited value.
\<close>

definition getPathOfAlias :: "state \<Rightarrow> string \<Rightarrow> jsval option \<times> state" where
  "getPathOfAlias s alias =
     (case aliasOf s alias of
        Some p \<Rightarrow> (Some p, s)
      | None \<Rightarrow>
         (case indexOf CHR ''.'' alias of
            None \<Rightarrow> (None, s)
          | Some pos \<Rightarrow>
             (case aliasOf s (take pos alias) of
                None \<Rightarrow> (None, s)
              | Some root \<Rightarrow>
                 (let p = path_join (toArg root # aliasArgs (drop (Suc pos) alias))
                  in (Some (JStr p), s\<lparr>v_aliases := setKey (v_aliases s) alias p\<rparr>)))))"

definition setPathOfAlias :: "env \<Rightarrow> state \<Rightarrow> string \<Rightarrow> string option \<Rightarrow> state" where
  "setPathOfAlias e s alias path =
     (case path of
        None \<Rightarrow> s\<lparr>v_aliases := (v_aliases s)(alias := None)\<rparr>
      | Some p \<Rightarrow>
         if p = [] then s\<lparr>v_aliases := (v_aliases s)(alias := None)\<rparr>
         else s\<lparr>v_aliases := setKey (v_aliases s) alias (path_resolve (cwd e) [cwd e, p])\<rparr>)"

section \<open>The lazy resolution registry\<close>

definition coreClasses :: "(string \<times> string) list" where
  "coreClasses =
    [(''CApplication'', ''core/CApplication''),
     (''CComponent'', ''core/CComponent''),
     (''CModel'', ''core/CModel''),
     (''CConsoleApplication'', ''console/CConsoleApplication''),
     (''CConsoleCommandRunner'', ''console/CConsoleCommandRunner''),
     (''CConsoleCommand'', ''console/CConsoleCommand''),
     (''CHelpCommand'', ''console/CHelpCommand''),
     (''CDaemonCommand'', ''console/CDaemonCommand''),
     (''CLogger'', ''logging/CLogger''),
     (''CLogRoute'', ''logging/CLogRoute''),
     (''CLogRouter'', ''logging/CLogRouter''),
     (''CConsoleLogRoute'', ''logging/CConsoleLogRoute''),
     (''CEmailLogRoute'', ''logging/CEmailLogRoute''),
     (''CFileLogRoute'', ''logging/CFileLogRoute''),
     (''CTaskQueue'', ''tasks/CTaskQueue''),
     (''CGearmanTaskQueue'', ''tasks/CGearmanTaskQueue''),
     (''CCache'', ''caching/CCache''),
     (''CCacheDependency'', ''caching/CCacheDependency''),
     (''CMemCache'', ''caching/CMemCache''),
     (''CWebPage'', ''net/CWebPage''),
     (''CNetworkProxy'', ''net/CNetworkProxy''),
     (''CDomHelper'', ''utils/CDomHelper''),
     (''CValidator'', ''validators/CValidator''),
     (''CBooleanValidator'', ''validators/CBooleanValidator''),
     (''CEmailValidator'', ''validators/CEmailValidator''),
     (''CInlineValidator'', ''validators/CInlineValidator''),
     (''CIpValidator'', ''validators/CIpValidator''),
     (''CNumberValidator'', ''validators/CNumberValidator''),
     (''CRangeValidator'', ''validators/CRangeValidator''),
     (''CRequiredValidator'', ''validators/CRequiredValidator''),
     (''CStringValidator'', ''validators/CStringValidator''),
     (''CUrlValidator'', ''validators/CUrlValidator'')]"

text \<open>
  The loop over \<open>_includePaths\<close> in the proxy's \<open>get\<close> handler, up to the first directory
  where the class file is a regular file. \<open>stat\<close> is declared before the loop and assigned
  under a \<open>try\<close> with an empty \<open>catch\<close>, so a probe that raises leaves the value of the
  probe before it; the loop carries it.
\<close>

fun scanPaths :: "env \<Rightarrow> string \<Rightarrow> ftype option \<Rightarrow> string list \<Rightarrow> string option" where
  "scanPaths e name stat [] = None"
| "scanPaths e name stat (path # paths) =
     (let classFile = path_join [Some path, Some (name @ ''.js'')];
          stat1 = (case statSync e classFile of None \<Rightarrow> stat | Some st \<Rightarrow> Some st)
      in if stat1 = Some File then Some classFile else scanPaths e name stat1 paths)"

text \<open>
  Reads and writes of the target. \<open>bindClass\<close> makes an own property; \<open>assignTarget\<close> is
  \<open>target[name] = v\<close>, which for the key \<open>__proto__\<close> replaces the prototype when \<open>v\<close> is an
  object or \<open>null\<close> and does nothing otherwise. \<open>targetRead\<close> is \<open>target[name]\<close>: an own
  property, or what the prototype gives.
\<close>

definition bindClass :: "state \<Rightarrow> string \<Rightarrow> jsval \<Rightarrow> state" where
  "bindClass s name m = s\<lparr>target := (target s)(name \<mapsto> m)\<rparr>"

definition assignTarget :: "state \<Rightarrow> string \<Rightarrow> jsval \<Rightarrow> state" where
  "assignTarget s name v =
     (if name = ''__proto__'' then
        (if isObject v \<or> v = JNull then s\<lparr>targetProto := Some v\<rparr> else s)
      else bindClass s name v)"

definition targetInherited :: "env \<Rightarrow> state \<Rightarrow> string \<Rightarrow> jsval" where
  "targetInherited e s k =
     (case targetProto s of
        None \<Rightarrow> inherited k
      | Some p \<Rightarrow>
          if k = ''__proto__'' then p
          else if p = JNull then JUndefined
          else propertyOf e p k)"

definition targetRead :: "env \<Rightarrow> state \<Rightarrow> string \<Rightarrow> jsval" where
  "targetRead e s k = (case target s k of Some v \<Rightarrow> v | None \<Rightarrow> targetInherited e s k)"

definition returnTarget :: "env \<Rightarrow> state \<Rightarrow> string \<Rightarrow> (error + jsval) \<times> state" where
  "returnTarget e s name = (Inr (targetRead e s name), s)"

text \<open>
  The \<open>get\<close> handler of the proxy that the module exports: every \<open>this[name]\<close> of the
  library, and every reference to a type by a caller, goes through it. \<open>target.hasOwnProperty\<close>
  and \<open>_classMap.hasOwnProperty\<close> are calls through the object; the class map holds strings
  only, so an own entry of that name cannot be called. Every path that does not raise ends in
  \<open>return target[name]\<close>.
\<close>

definition registryGet :: "env \<Rightarrow> state \<Rightarrow> string \<Rightarrow> (error + jsval) \<times> state" where
  "registryGet e s name =
     (case hasOwnPropertyCall e (targetRead e s ''hasOwnProperty'') (target s name \<noteq> None) name of
        Inl err \<Rightarrow> (Inl err, s)
      | Inr True \<Rightarrow> returnTarget e s name
      | Inr False \<Rightarrow>
         (case map_of coreClasses name of
            Some rel \<Rightarrow>
              (case require e (path_join [Some (dirname e), Some rel]) of
                 None \<Rightarrow> (Inl LoadError, s)
               | Some m \<Rightarrow> returnTarget e (assignTarget s name m) name)
          | None \<Rightarrow>
             (case v_classMap s ''hasOwnProperty'' of
                Some h \<Rightarrow> (Inl TypeError, s)
              | None \<Rightarrow>
                 (case v_classMap s name of
                    Some file \<Rightarrow>
                      (case require e file of
                         None \<Rightarrow> (Inl LoadError, s)
                       | Some m \<Rightarrow> returnTarget e (assignTarget s name m) name)
                  | None \<Rightarrow>
                     (case v_includePaths s of
                        None \<Rightarrow> returnTarget e s name
                      | Some paths \<Rightarrow>
                         (case scanPaths e name None paths of
                            None \<Rightarrow> returnTarget e s name
                          | Some classFile \<Rightarrow>
                             (case require e classFile of
                                None \<Rightarrow> (Inl LoadError, s)
                              | Some m \<Rightarrow>
                                 if debug e \<and> path_basename classFile \<noteq> name @ ''.js''
                                 then (Inl ClassFileMismatch, assignTarget s name m)
                                 else returnTarget e (assignTarget s name m) name)))))))"

section \<open>The class importer\<close>

text \<open>
  \<open>_imports[k]\<close> in a condition.
\<close>

definition importedAs :: "state \<Rightarrow> string \<Rightarrow> jsval option" where
  "importedAs s k = truthyEntry (v_imports s) k"

text \<open>
  \<open>import\<close> from the test for a dot on, for an alias that is a string. The path that
  \<open>getPathOfAlias\<close> returns for an alias with a dot is a string in every state (lemma
  \<open>getPathOfAlias_dotted\<close> below); \<open>toKey\<close> is what \<open>+\<close> and the list make of it.
\<close>

definition importString :: "env \<Rightarrow> state \<Rightarrow> string \<Rightarrow> bool \<Rightarrow> (error + jsval) \<times> state" where
  "importString e s alias forceInclude =
     (case lastIndexOf CHR ''.'' alias of
        None \<Rightarrow>
          (if forceInclude then
             (case registryGet e s alias of
                (Inl err, s1) \<Rightarrow> (Inl err, s1)
              | (Inr v, s1) \<Rightarrow>
                  (Inr (JStr alias),
                   if truthy v then s1\<lparr>v_imports := setKey (v_imports s1) alias alias\<rparr> else s1))
           else (Inr (JStr alias), s))
      | Some pos \<Rightarrow>
          (let className = drop (Suc pos) alias; isClass = (className \<noteq> ''*'') in
           case getPathOfAlias s alias of
             (None, s1) \<Rightarrow> (Inl InvalidAlias, s1)
           | (Some p, s1) \<Rightarrow>
               (let path = toKey p in
                if isClass then
                  (if forceInclude then
                     (if statSync e (path @ ''.js'') = Some File then
                        (case require e (path @ ''.js'') of
                           None \<Rightarrow> (Inl LoadError, s1)
                         | Some m \<Rightarrow>
                             (Inr (JStr className),
                              (assignTarget s1 className m)\<lparr>v_imports := setKey (v_imports s1) alias className\<rparr>))
                      else (Inl InvalidAlias, s1))
                   else (Inr (JStr className),
                         s1\<lparr>v_classMap := setKey (v_classMap s1) className (path @ ''.js'')\<rparr>))
                else
                  (let paths = (case v_includePaths s1 of None \<Rightarrow> [cwd e] | Some ps \<Rightarrow> ps);
                       paths1 = (if path \<in> set paths then paths else paths @ [path])
                   in (Inr p,
                       s1\<lparr>v_includePaths := Some paths1, v_imports := setKey (v_imports s1) alias path\<rparr>)))))"

text \<open>
  \<open>import\<close> as the library calls it: \<open>createComponent\<close> passes whatever value it holds as
  the type. The test \<open>_imports[alias]\<close> turns the value into a key; a value that is not a
  string has no \<open>lastIndexOf\<close> method.
\<close>

definition importAlias :: "env \<Rightarrow> state \<Rightarrow> jsval \<Rightarrow> bool \<Rightarrow> (error + jsval) \<times> state" where
  "importAlias e s alias forceInclude =
     (case importedAs s (toKey alias) of
        Some r \<Rightarrow> (Inr r, s)
      | None \<Rightarrow>
         (case alias of
            JStr a \<Rightarrow> importString e s a forceInclude
          | _ \<Rightarrow> (Inl TypeError, s)))"

section \<open>The component factory\<close>

text \<open>
  A descriptor is a type name or a plain object, one that inherits from \<open>Object.prototype\<close>
  only: the list of its own properties in enumeration order, and whether its \<open>class\<close> property is locked, that is not configurable
  (the object is frozen or sealed, or the property was defined so). The file is in strict mode,
  where deleting a locked property raises a type error.
\<close>

datatype config = CfgStr string | CfgObj bool "(string \<times> jsval) list"

definition descriptorRead :: "(string \<times> jsval) list \<Rightarrow> string \<Rightarrow> jsval" where
  "descriptorRead obj k = (case map_of obj k of Some v \<Rightarrow> v | None \<Rightarrow> inherited k)"

text \<open>
  \<open>createComponent\<close> in its three steps. \<open>componentType\<close> is the \<open>if\<close> chain at the head of
  the function: it gives the type, the properties left to assign, and the caller's descriptor as
  the step leaves it. \<open>resolveType\<close> is \<open>if (!this[type]) type = this.import(type, true)\<close>.
  \<open>construct\<close> is the inner function of that name applied to \<open>this[type]\<close>, and
  \<open>assignProps\<close> the \<open>for\<close> loop over the keys.
\<close>

definition componentType ::
  "env \<Rightarrow> state \<Rightarrow> config \<Rightarrow> (error + jsval \<times> (string \<times> jsval) list) \<times> state \<times> config" where
  "componentType e s cfg =
     (case cfg of
        CfgStr c \<Rightarrow>
          (case registryGet e s c of
             (Inl err, s1) \<Rightarrow> (Inl err, s1, cfg)
           | (Inr v, s1) \<Rightarrow> (Inr (v, []), s1, cfg))
      | CfgObj locked obj \<Rightarrow>
          (case hasOwnPropertyCall e (descriptorRead obj ''hasOwnProperty'')
                  (map_of obj ''class'' \<noteq> None) ''class'' of
             Inl err \<Rightarrow> (Inl err, s, cfg)
           | Inr False \<Rightarrow> (Inl ConfigurationError, s, cfg)
           | Inr True \<Rightarrow>
               if map_of obj ''class'' \<noteq> None \<and> locked then (Inl TypeError, s, cfg)
               else (Inr (descriptorRead obj ''class'', AList.delete ''class'' obj), s,
                     CfgObj locked (AList.delete ''class'' obj))))"

definition resolveType :: "env \<Rightarrow> state \<Rightarrow> jsval \<Rightarrow> (error + jsval) \<times> state" where
  "resolveType e s type =
     (case registryGet e s (toKey type) of
        (Inl err, s1) \<Rightarrow> (Inl err, s1)
      | (Inr v, s1) \<Rightarrow>
          if truthy v then (Inr type, s1)
          else importAlias e s1 type True)"

definition construct :: "jsval \<Rightarrow> jsval list \<Rightarrow> error + jsval" where
  "construct constructor args =
     (case constructor of JFun f \<Rightarrow> Inr (JInst f args []) | _ \<Rightarrow> Inl TypeError)"

text \<open>
  \<open>obj[k] = v\<close> on the new instance. An entry under \<open>__proto__\<close> stands for the instance's
  prototype, which only an object or \<open>null\<close> replaces.
\<close>

fun setProp :: "jsval \<Rightarrow> string \<Rightarrow> jsval \<Rightarrow> jsval" where
  "setProp (JInst c args props) k v =
     (if k = ''__proto__'' \<and> \<not> (isObject v \<or> v = JNull) then JInst c args props
      else JInst c args (AList.update k v props))"
| "setProp obj k v = obj"

fun assignProps :: "(string \<times> jsval) list \<Rightarrow> jsval \<Rightarrow> jsval" where
  "assignProps [] obj = obj"
| "assignProps ((k, v) # kvs) obj =
     assignProps kvs (if k \<noteq> ''class'' then setProp obj k v else obj)"

definition createComponent ::
  "env \<Rightarrow> state \<Rightarrow> config \<Rightarrow> jsval list \<Rightarrow> (error + jsval) \<times> state \<times> config" where
  "createComponent e s cfg args =
     (case componentType e s cfg of
        (Inl err, s1, cfg1) \<Rightarrow> (Inl err, s1, cfg1)
      | (Inr (type, props), s1, cfg1) \<Rightarrow>
          (case resolveType e s1 type of
             (Inl err, s2) \<Rightarrow> (Inl err, s2, cfg1)
           | (Inr type1, s2) \<Rightarrow>
               (case registryGet e s2 (toKey type1) of
                  (Inl err, s3) \<Rightarrow> (Inl err, s3, cfg1)
                | (Inr constructor, s3) \<Rightarrow>
                    (case construct constructor args of
                       Inl err \<Rightarrow> (Inl err, s3, cfg1)
                     | Inr obj \<Rightarrow> (Inr (assignProps props obj), s3, cfg1)))))"

section \<open>The directory scan as the specification states it\<close>

text \<open>
  What the specification says the directory scan finds: the class file in the first
  directory of the list, in list order, where it is a regular file.
\<close>

definition firstClassFile :: "env \<Rightarrow> string \<Rightarrow> string list \<Rightarrow> string option" where
  "firstClassFile e name paths =
     (case find (\<lambda>d. statSync e (path_join [Some d, Some (name @ ''.js'')]) = Some File) paths of
        None \<Rightarrow> None
      | Some d \<Rightarrow> Some (path_join [Some d, Some (name @ ''.js'')]))"

section \<open>States in which the tables answer for themselves\<close>

text \<open>
  \<open>hasOwnProperty\<close> is the inherited function on the target: nothing has been bound under
  that name and the target's prototype has not been replaced. In \<open>ordinaryTables\<close> this holds
  of the class map as well. The initial state is such a state.
\<close>

definition ordinaryTarget :: "state \<Rightarrow> bool" where
  "ordinaryTarget s = (target s ''hasOwnProperty'' = None \<and> targetProto s = None)"

definition ordinaryTables :: "state \<Rightarrow> bool" where
  "ordinaryTables s = (ordinaryTarget s \<and> v_classMap s ''hasOwnProperty'' = None)"

text \<open>
  Two states with the same target: the same own properties and the same prototype.
\<close>

definition sameTarget :: "state \<Rightarrow> state \<Rightarrow> bool" where
  "sameTarget s1 s2 = (target s1 = target s2 \<and> targetProto s1 = targetProto s2)"

section \<open>Example surroundings\<close>

text \<open>
  A process started in \<open>/srv\<close> with the library installed under \<open>/opt/yiila/lib\<close>, on an
  empty file system, and the module state after \<open>setPathOfAlias('app', '/srv/app')\<close>.
\<close>

definition exampleEnv :: env where
  "exampleEnv = \<lparr> cwd = ''/srv'', dirname = ''/opt/yiila/lib'', debug = False,
      statSync = (\<lambda>p. None), require = (\<lambda>p. None),
      callFunction = (\<lambda>f x. None), propertyOf = (\<lambda>v k. JUndefined) \<rparr>"

definition exampleAppState :: state where
  "exampleAppState = setPathOfAlias exampleEnv (initialState exampleEnv) ''app'' (Some ''/srv/app'')"

text \<open>
  The same process with files: a class \<open>User\<close> both in the working directory and under
  \<open>/srv/app/models\<close>, a class \<open>Account\<close> under \<open>/srv/app/models\<close> only, and the
  library's own logger. \<open>debugEnv\<close> is that process with the debug flag set, on a volume that
  finds files whatever the case of the letters in the path.
\<close>

definition exampleFiles :: "(string \<times> ftype) list" where
  "exampleFiles =
     [(''/srv/User.js'', File), (''/srv/app/models'', Directory),
      (''/srv/app/models/User.js'', File), (''/srv/app/models/Account.js'', File)]"

definition exampleModules :: "(string \<times> jsval) list" where
  "exampleModules =
     [(''/opt/yiila/lib/logging/CLogger'', JFun ''function CLogger() {}''),
      (''/srv/User.js'', JFun ''function User() { this.home = true; }''),
      (''/srv/app/models/User.js'', JFun ''function User() {}''),
      (''/srv/app/models/Account.js'', JFun ''function Account() {}'')]"

definition installedEnv :: env where
  "installedEnv = \<lparr> cwd = ''/srv'', dirname = ''/opt/yiila/lib'', debug = False,
      statSync = map_of exampleFiles, require = map_of exampleModules,
      callFunction = (\<lambda>f x. None), propertyOf = (\<lambda>v k. JUndefined) \<rparr>"

definition lowerCase :: "string \<Rightarrow> string" where
  "lowerCase = map (\<lambda>c. case map_of (zip ''ABCDEFGHIJKLMNOPQRSTUVWXYZ'' ''abcdefghijklmnopqrstuvwxyz'') c of
                          None \<Rightarrow> c | Some l \<Rightarrow> l)"

definition caseInsensitive :: "(string \<times> 'a) list \<Rightarrow> string \<Rightarrow> 'a option" where
  "caseInsensitive entries p = map_of (map (\<lambda>(f, x). (lowerCase f, x)) entries) (lowerCase p)"

definition debugEnv :: env where
  "debugEnv = \<lparr> cwd = ''/srv'', dirname = ''/opt/yiila/lib'', debug = True,
      statSync = caseInsensitive exampleFiles, require = caseInsensitive exampleModules,
      callFunction = (\<lambda>f x. None), propertyOf = (\<lambda>v k. JUndefined) \<rparr>"

text \<open>
  The module state after \<open>import('app.models.*')\<close>, after \<open>import('app.models.Account')\<close>
  and after \<open>import('app.models.Typo')\<close>, each on top of \<open>setPathOfAlias('app', '/srv/app')\<close>;
  and the state after \<open>import('app.models.*')\<close> and a reference to \<open>User\<close>.
\<close>

definition modelsState :: state where
  "modelsState = snd (importAlias installedEnv exampleAppState (JStr ''app.models.*'') False)"

definition accountState :: state where
  "accountState = snd (importAlias installedEnv exampleAppState (JStr ''app.models.Account'') False)"

definition userState :: state where
  "userState = snd (registryGet installedEnv modelsState ''User'')"

definition typoState :: state where
  "typoState = snd (importAlias installedEnv exampleAppState (JStr ''app.models.Typo'') False)"

section \<open>Facts about strings and paths\<close>

lemma splitOn_nonempty: "splitOn c s \<noteq> []"
  by (induction s) (auto split: list.splits)

lemma list_update_last: "xs \<noteq> [] \<Longrightarrow> xs[length xs - 1 := y] = butlast xs @ [y]"
  by (induction xs rule: rev_induct) auto

lemma path_normalize_nonempty: "path_normalize p \<noteq> []"
  by (cases "take 1 p = ''/''") (simp_all add: path_normalize_def Let_def)

lemma path_join_nonempty: "path_join xs \<noteq> []"
  by (simp add: path_join_def path_normalize_nonempty)

lemma indexOf_take: "indexOf c a = Some pos \<Longrightarrow> take pos a = takeWhile (\<lambda>x. x \<noteq> c) a"
  using takeWhile_eq_take [of "\<lambda>x. x \<noteq> c" a] by (auto simp: indexOf_def split: if_splits)

lemma indexOf_take_neq: "indexOf c a = Some pos \<Longrightarrow> take pos a \<noteq> a"
proof -
  assume h: "indexOf c a = Some pos"
  then have "c \<in> set a" by (auto simp: indexOf_def split: if_splits)
  then have "takeWhile (\<lambda>x. x \<noteq> c) a \<noteq> a" by (auto simp: takeWhile_eq_all_conv)
  with indexOf_take [OF h] show ?thesis by simp
qed

lemma indexOf_mem: "indexOf c a = Some pos \<Longrightarrow> c \<in> set a"
  by (auto simp: indexOf_def split: if_splits)

lemma lastIndexOf_mem: "lastIndexOf c a = Some pos \<Longrightarrow> c \<in> set a"
  by (auto simp: lastIndexOf_def split: if_splits)

section \<open>Facts about inherited keys\<close>

text \<open>
  No key that every object inherits has a dot in it, and what is inherited under any other
  key is \<open>undefined\<close>.
\<close>

lemma dotted_not_inherited: "CHR ''.'' \<in> set k \<Longrightarrow> k \<notin> set inheritedKeys"
  by (auto simp: inheritedKeys_def objectPrototype_def)

lemma dotted_not_proto: "CHR ''.'' \<in> set k \<Longrightarrow> k \<noteq> ''__proto__''"
  by auto

lemma inherited_other: "k \<notin> set inheritedKeys \<Longrightarrow> inherited k = JUndefined"
proof -
  assume "k \<notin> set inheritedKeys"
  then have "map_of objectPrototype k = None" by (simp add: map_of_eq_None_iff inheritedKeys_def)
  then show ?thesis by (simp add: inherited_def)
qed

lemma truthyEntry_own:
  "tbl k = Some p \<Longrightarrow> truthyEntry tbl k = (if p = [] then None else Some (JStr p))"
  by (simp add: truthyEntry_def)

lemma truthyEntry_none: "tbl k = None \<Longrightarrow> k \<notin> set inheritedKeys \<Longrightarrow> truthyEntry tbl k = None"
  by (simp add: truthyEntry_def inherited_other)

lemma truthyEntry_is_string:
  "k \<notin> set inheritedKeys \<Longrightarrow> truthyEntry tbl k = Some v \<Longrightarrow> \<exists>p. v = JStr p \<and> p \<noteq> [] \<and> tbl k = Some p"
  by (auto simp: truthyEntry_def inherited_other split: option.splits if_splits)

lemma setKey_plain: "k \<noteq> ''__proto__'' \<Longrightarrow> setKey tbl k v = tbl(k \<mapsto> v)"
  by (simp add: setKey_def)

section \<open>Facts about the alias table\<close>

lemma aliasOf_update:
  "k \<noteq> ''__proto__'' \<Longrightarrow>
   aliasOf (s\<lparr>v_aliases := setKey (v_aliases s) k p\<rparr>) k' =
     (if k' = k then (if p = [] then None else Some (JStr p)) else aliasOf s k')"
  by (simp add: aliasOf_def truthyEntry_def setKey_def)

lemma aliasOf_delete_other:
  "k' \<noteq> k \<Longrightarrow> aliasOf (s\<lparr>v_aliases := (v_aliases s)(k := None)\<rparr>) k' = aliasOf s k'"
  by (simp add: aliasOf_def truthyEntry_def)

lemma aliasOf_delete_same:
  "k \<notin> set inheritedKeys \<Longrightarrow> aliasOf (s\<lparr>v_aliases := (v_aliases s)(k := None)\<rparr>) k = None"
  by (simp add: aliasOf_def truthyEntry_none)

lemma getPathOfAlias_found: "getPathOfAlias s a = (Some p, s1) \<Longrightarrow> aliasOf s1 a = Some p"
proof (cases "aliasOf s a")
  case (Some q)
  then show "getPathOfAlias s a = (Some p, s1) \<Longrightarrow> aliasOf s1 a = Some p"
    by (auto simp: getPathOfAlias_def)
next
  case None
  assume g: "getPathOfAlias s a = (Some p, s1)"
  then obtain pos where i: "indexOf CHR ''.'' a = Some pos"
    using None by (auto simp: getPathOfAlias_def split: option.splits)
  then have "a \<noteq> ''__proto__''" using indexOf_mem dotted_not_proto by metis
  then show "aliasOf s1 a = Some p"
    using g None i
    by (auto simp: getPathOfAlias_def Let_def aliasOf_update path_join_nonempty split: option.splits)
qed

lemma getPathOfAlias_hit: "aliasOf s a = Some p \<Longrightarrow> getPathOfAlias s a = (Some p, s)"
  by (simp add: getPathOfAlias_def)

lemma aliasOf_setPathOfAlias_other: "k \<noteq> a \<Longrightarrow> aliasOf (setPathOfAlias e s a q) k = aliasOf s k"
  by (auto simp: setPathOfAlias_def aliasOf_def truthyEntry_def setKey_def split: option.splits)

text \<open>
  For an alias with a dot \<open>getPathOfAlias\<close> returns \<open>false\<close> or a string.
\<close>

lemma getPathOfAlias_dotted:
  assumes "CHR ''.'' \<in> set a" and "getPathOfAlias s a = (Some p, s1)"
  shows "\<exists>path. p = JStr path"
proof (cases "aliasOf s a")
  case (Some q)
  then have "q = p" using assms(2) by (simp add: getPathOfAlias_def)
  then show ?thesis
    using Some truthyEntry_is_string [OF dotted_not_inherited [OF assms(1)], of "v_aliases s" p]
    by (auto simp: aliasOf_def)
next
  case None
  then show ?thesis using assms(2)
    by (auto simp: getPathOfAlias_def Let_def split: option.splits)
qed

text \<open>
  The hole that \<open>delete\<close> leaves in the last place is skipped by \<open>join\<close>, so the joined
  segments are the dot-delimited segments without a trailing wildcard.
\<close>

lemma aliasArgs_drops_wildcard:
  "nonEmptyStrings (aliasArgs rest) =
     nonEmptyStrings (map Some (if last (splitOn CHR ''.'' rest) = ''*''
                                then butlast (splitOn CHR ''.'' rest) else splitOn CHR ''.'' rest))"
proof -
  let ?segs = "splitOn CHR ''.'' rest"
  have ne: "?segs \<noteq> []" by (rule splitOn_nonempty)
  have l: "last (map Some ?segs) = Some (last ?segs)" using ne by (simp add: last_map)
  show ?thesis
  proof (cases "last ?segs = ''*''")
    case True
    then have "aliasArgs rest = butlast (map Some ?segs) @ [None]"
      using ne l list_update_last [of "map Some ?segs" None] by (simp add: aliasArgs_def Let_def)
    then show ?thesis using True by (simp add: nonEmptyStrings_def map_butlast)
  next
    case False
    then show ?thesis using l by (simp add: aliasArgs_def Let_def)
  qed
qed

lemma path_join_aliasArgs:
  "path_join (Some root # aliasArgs rest) =
     path_join (map Some (root # (if last (splitOn CHR ''.'' rest) = ''*''
                                  then butlast (splitOn CHR ''.'' rest) else splitOn CHR ''.'' rest)))"
  using aliasArgs_drops_wildcard [of rest] by (simp add: path_join_def nonEmptyStrings_def)

lemmas path_defs = path_join_def nonEmptyStrings_def path_normalize_def path_parts_def
  normalizeArray_def path_resolve_def Let_def

lemmas table_defs = truthyEntry_def setKey_def inherited_def objectPrototype_def
  nativeHasOwnProperty_def hasOwnPropertyCall_def

lemmas alias_defs = setPathOfAlias_def getPathOfAlias_def aliasOf_def indexOf_def aliasArgs_def

section \<open>The application slot\<close>

text \<open>
  Claim C3. The application slot holds at most one live application. From the unregistered
  state \<open>setApplication(a)\<close> with an instance \<open>a\<close> succeeds and registers \<open>a\<close>. While \<open>a\<close> is
  registered, \<open>setApplication(b)\<close> with an instance \<open>b\<close> fails with
  \<open>MultipleApplicationError\<close> and leaves the state as it was. \<open>setApplication(null)\<close> while
  \<open>a\<close> is registered calls \<open>a.dispose()\<close> and empties the slot, and a following
  \<open>setApplication(b)\<close> succeeds. \<open>setApplication(null)\<close> on the empty slot changes nothing.
\<close>

theorem setApplication_singleton:
  "setApplication (s\<lparr>v_app := None\<rparr>) (Some a) = (Inr (), s\<lparr>v_app := Some a\<rparr>)
   \<and> setApplication (s\<lparr>v_app := Some a\<rparr>) (Some b) = (Inl MultipleApplicationError, s\<lparr>v_app := Some a\<rparr>)
   \<and> setApplication (s\<lparr>v_app := Some a\<rparr>) None = (Inr (), s\<lparr>v_app := None, disposed := disposed s @ [a]\<rparr>)
   \<and> setApplication (snd (setApplication (s\<lparr>v_app := Some a\<rparr>) None)) (Some b)
        = (Inr (), s\<lparr>v_app := Some b, disposed := disposed s @ [a]\<rparr>)
   \<and> setApplication (s\<lparr>v_app := None\<rparr>) None = (Inr (), s\<lparr>v_app := None\<rparr>)"
  by (simp add: setApplication_def)

section \<open>Alias resolution\<close>

text \<open>
  Claim C2, as stated, fails: an alias that has an entry of its own in the table, registered or
  cached, resolves to that entry, whatever its root segment is bound to. After
  \<open>setPathOfAlias('app', '/srv/app')\<close> and \<open>setPathOfAlias('app.models', '/var/models')\<close>
  the root \<open>app\<close> is registered, yet \<open>getPathOfAlias('app.models')\<close> is \<open>/var/models\<close> and
  not the join \<open>/srv/app/models\<close>. And once \<open>app.models.User\<close> has been resolved under
  \<open>app\<close> as \<open>/srv/app\<close>, it still resolves to \<open>/srv/app/models/User\<close> after
  \<open>setPathOfAlias('app', '/opt')\<close>, not to the join \<open>/opt/models/User\<close>.
\<close>

theorem exact_alias_entry_wins:
  "aliasOf (setPathOfAlias exampleEnv exampleAppState ''app.models'' (Some ''/var/models'')) ''app''
     = Some (JStr ''/srv/app'')
   \<and> fst (getPathOfAlias (setPathOfAlias exampleEnv exampleAppState ''app.models'' (Some ''/var/models''))
        ''app.models'') = Some (JStr ''/var/models'')
   \<and> path_join [Some ''/srv/app'', Some ''models''] = ''/srv/app/models''
   \<and> aliasOf (setPathOfAlias exampleEnv (snd (getPathOfAlias exampleAppState ''app.models.User'')) ''app'' (Some ''/opt''))
        ''app'' = Some (JStr ''/opt'')
   \<and> fst (getPathOfAlias
        (setPathOfAlias exampleEnv (snd (getPathOfAlias exampleAppState ''app.models.User'')) ''app'' (Some ''/opt''))
        ''app.models.User'') = Some (JStr ''/srv/app/models/User'')
   \<and> path_join [Some ''/opt'', Some ''models'', Some ''User''] = ''/opt/models/User''"
  by (simp add: exampleAppState_def exampleEnv_def initialState_def alias_defs table_defs path_defs)

text \<open>
  Claim C2, amended. An alias that has a non-empty entry of its own in the alias table resolves
  to that entry. For every alias for which the table gives nothing: if its root segment (the
  text before the first dot) is registered, \<open>getPathOfAlias\<close> joins the root's path with the
  dot-delimited segments of the remainder, without a trailing wildcard segment, stores the
  result under the full alias and returns it; if the alias has no dot, or the table gives
  nothing for its root segment, \<open>getPathOfAlias\<close> returns \<open>false\<close> and changes nothing. (The
  table gives something for a key that has a non-empty entry and for the keys that every
  object inherits; what an inherited key resolves to is left open.)
\<close>

theorem compound_alias_resolution:
  "(\<forall>p. v_aliases s alias = Some p \<and> p \<noteq> [] \<longrightarrow> getPathOfAlias s alias = (Some (JStr p), s))
   \<and> (aliasOf s alias = None \<longrightarrow>
        (indexOf CHR ''.'' alias = None \<longrightarrow> getPathOfAlias s alias = (None, s))
      \<and> (\<forall>pos. indexOf CHR ''.'' alias = Some pos \<longrightarrow>
            (aliasOf s (take pos alias) = None \<longrightarrow> getPathOfAlias s alias = (None, s))
          \<and> (\<forall>root. aliasOf s (take pos alias) = Some (JStr root) \<longrightarrow>
               (let segs = splitOn CHR ''.'' (drop (Suc pos) alias);
                    p = path_join (map Some (root # (if last segs = ''*'' then butlast segs else segs)))
                in getPathOfAlias s alias = (Some (JStr p), s\<lparr>v_aliases := (v_aliases s)(alias \<mapsto> p)\<rparr>)))))"
proof (intro conjI allI impI)
  fix p
  assume "v_aliases s alias = Some p \<and> p \<noteq> []"
  then have "aliasOf s alias = Some (JStr p)" by (simp add: aliasOf_def truthyEntry_own)
  then show "getPathOfAlias s alias = (Some (JStr p), s)" by (rule getPathOfAlias_hit)
next
  assume "aliasOf s alias = None" "indexOf CHR ''.'' alias = None"
  then show "getPathOfAlias s alias = (None, s)" by (simp add: getPathOfAlias_def)
next
  fix pos
  assume "aliasOf s alias = None" "indexOf CHR ''.'' alias = Some pos" "aliasOf s (take pos alias) = None"
  then show "getPathOfAlias s alias = (None, s)" by (simp add: getPathOfAlias_def)
next
  fix pos root
  assume a: "aliasOf s alias = None" "indexOf CHR ''.'' alias = Some pos"
    "aliasOf s (take pos alias) = Some (JStr root)"
  have "alias \<noteq> ''__proto__''" using a(2) indexOf_mem dotted_not_proto by metis
  then show "let segs = splitOn CHR ''.'' (drop (Suc pos) alias);
                 p = path_join (map Some (root # (if last segs = ''*'' then butlast segs else segs)))
             in getPathOfAlias s alias = (Some (JStr p), s\<lparr>v_aliases := (v_aliases s)(alias \<mapsto> p)\<rparr>)"
    using a by (simp add: getPathOfAlias_def Let_def path_join_aliasArgs setKey_plain del: list.map)
qed

text \<open>
  The scenario of the specification: with \<open>app\<close> registered as \<open>/srv/app\<close>,
  \<open>getPathOfAlias('app.models.User')\<close> is \<open>/srv/app/models/User\<close>, stored under the full alias;
  and \<open>app\<close> itself resolves to its entry.
\<close>

theorem compound_alias_resolution_witness:
  "aliasOf exampleAppState ''app.models.User'' = None
   \<and> indexOf CHR ''.'' ''app.models.User'' = Some 3
   \<and> aliasOf exampleAppState ''app'' = Some (JStr ''/srv/app'')
   \<and> fst (getPathOfAlias exampleAppState ''app.models.User'') = Some (JStr ''/srv/app/models/User'')
   \<and> v_aliases (snd (getPathOfAlias exampleAppState ''app.models.User'')) ''app.models.User''
       = Some ''/srv/app/models/User''
   \<and> v_aliases exampleAppState ''app'' = Some ''/srv/app''
   \<and> getPathOfAlias exampleAppState ''app'' = (Some (JStr ''/srv/app''), exampleAppState)"
proof -
  have a: "aliasOf exampleAppState ''app.models.User'' = None"
    by (simp add: exampleAppState_def exampleEnv_def initialState_def setPathOfAlias_def aliasOf_def
        table_defs)
  have i: "indexOf CHR ''.'' ''app.models.User'' = Some 3" by (simp add: indexOf_def)
  have o: "v_aliases exampleAppState ''app'' = Some ''/srv/app''"
    by (simp add: exampleAppState_def exampleEnv_def initialState_def setPathOfAlias_def table_defs
        path_resolve_def path_parts_def normalizeArray_def)
  then have r: "aliasOf exampleAppState ''app'' = Some (JStr ''/srv/app'')"
    by (simp add: aliasOf_def truthyEntry_def)
  have p: "path_join (map Some [''/srv/app'', ''models'', ''User'']) = ''/srv/app/models/User''"
    by (simp add: path_defs)
  have 1: "getPathOfAlias exampleAppState ''app.models.User''
      = (Some (JStr ''/srv/app/models/User''),
         exampleAppState\<lparr>v_aliases := (v_aliases exampleAppState)(''app.models.User'' \<mapsto> ''/srv/app/models/User'')\<rparr>)"
    using compound_alias_resolution [of exampleAppState "''app.models.User''"] a i r p
    by (simp add: Let_def)
  have 2: "getPathOfAlias exampleAppState ''app'' = (Some (JStr ''/srv/app''), exampleAppState)"
    using compound_alias_resolution [of exampleAppState "''app''"] o by simp
  from a i r o 1 2 show ?thesis by simp
qed

text \<open>
  Claim C6 does not hold of the code. \<open>setPathOfAlias\<close> stores
  \<open>path.resolve(process.cwd(), path)\<close>: in a process started in \<open>/srv\<close> the relative path
  \<open>lib\<close> is stored as \<open>/srv/lib\<close>, \<open>/srv/app/../x/\<close> is stored as \<open>/srv/x\<close>, and the
  empty string, which is not \<open>null\<close>, removes the entry.
\<close>

theorem setPathOfAlias_normalizes:
  "fst (getPathOfAlias (setPathOfAlias exampleEnv (initialState exampleEnv) ''app'' (Some ''lib'')) ''app'')
     = Some (JStr ''/srv/lib'')
   \<and> fst (getPathOfAlias (setPathOfAlias exampleEnv (initialState exampleEnv) ''app'' (Some ''/srv/app/../x/'')) ''app'')
     = Some (JStr ''/srv/x'')
   \<and> fst (getPathOfAlias (setPathOfAlias exampleEnv (initialState exampleEnv) ''app'' (Some '''')) ''app'')
     = None"
  by (simp add: exampleEnv_def initialState_def alias_defs table_defs path_resolve_def
      path_parts_def normalizeArray_def Let_def)

text \<open>
  Claim C7. Once a compound alias has resolved to a path, which is then stored under the full
  alias, \<open>setPathOfAlias\<close> on its root segment, with any path or with \<open>null\<close>, does not change
  what the compound alias resolves to: \<open>getPathOfAlias\<close> returns the stored path and leaves
  the table as it is.
\<close>

theorem compound_alias_cache_is_stale:
  assumes "indexOf CHR ''.'' alias = Some pos" and "getPathOfAlias s alias = (Some p, s1)"
  shows "getPathOfAlias (setPathOfAlias e s1 (take pos alias) newPath) alias
           = (Some p, setPathOfAlias e s1 (take pos alias) newPath)"
proof -
  have "alias \<noteq> take pos alias" using assms(1) indexOf_take_neq by metis
  then have "aliasOf (setPathOfAlias e s1 (take pos alias) newPath) alias = aliasOf s1 alias"
    by (rule aliasOf_setPathOfAlias_other)
  also have "\<dots> = Some p" using assms(2) by (rule getPathOfAlias_found)
  finally show ?thesis by (rule getPathOfAlias_hit)
qed

theorem compound_alias_cache_is_stale_witness:
  "indexOf CHR ''.'' ''app.models.User'' = Some 3
   \<and> fst (getPathOfAlias exampleAppState ''app.models.User'') = Some (JStr ''/srv/app/models/User'')
   \<and> aliasOf (setPathOfAlias exampleEnv (snd (getPathOfAlias exampleAppState ''app.models.User'')) ''app'' (Some ''/opt'')) ''app''
       = Some (JStr ''/opt'')
   \<and> fst (getPathOfAlias
        (setPathOfAlias exampleEnv (snd (getPathOfAlias exampleAppState ''app.models.User'')) ''app'' (Some ''/opt''))
        ''app.models.User'') = Some (JStr ''/srv/app/models/User'')"
proof -
  have i: "indexOf CHR ''.'' ''app.models.User'' = Some 3" by (simp add: indexOf_def)
  have f: "fst (getPathOfAlias exampleAppState ''app.models.User'') = Some (JStr ''/srv/app/models/User'')"
    by (simp add: exampleAppState_def exampleEnv_def initialState_def alias_defs table_defs path_defs)
  then have g: "getPathOfAlias exampleAppState ''app.models.User''
      = (Some (JStr ''/srv/app/models/User''), snd (getPathOfAlias exampleAppState ''app.models.User''))"
    by (simp add: prod_eq_iff)
  have r: "aliasOf (setPathOfAlias exampleEnv (snd (getPathOfAlias exampleAppState ''app.models.User'')) ''app'' (Some ''/opt'')) ''app''
       = Some (JStr ''/opt'')"
    by (simp add: exampleEnv_def setPathOfAlias_def aliasOf_def table_defs path_resolve_def
        path_parts_def normalizeArray_def)
  from compound_alias_cache_is_stale [OF i g, of exampleEnv "Some ''/opt''"] i f r show ?thesis
    by simp
qed

text \<open>
  Claim C8, as stated, fails for a compound alias whose root segment is registered: removing
  its entry makes the next \<open>getPathOfAlias\<close> compute the path again from the root. In the
  initial state, where \<open>system\<close> is bound to the library's directory,
  \<open>setPathOfAlias('system.core', null)\<close> and then \<open>getPathOfAlias('system.core')\<close> gives the
  directory \<open>core\<close> of the library.
\<close>

theorem removed_compound_alias_found:
  "fst (getPathOfAlias (setPathOfAlias exampleEnv (initialState exampleEnv) ''system.core'' None) ''system.core'')
     = Some (JStr ''/opt/yiila/lib/core'')"
  by (simp add: exampleEnv_def initialState_def alias_defs table_defs path_defs)

text \<open>
  Claim C8, amended. For every alias that is not a key every object inherits, and that has no
  dot or for whose root segment (the text before its first dot) the alias table gives nothing,
  \<open>setPathOfAlias(a, null)\<close> followed by \<open>getPathOfAlias(a)\<close> returns \<open>false\<close>. (What the
  removal of an inherited key leads to is left open.)
\<close>

theorem removed_alias_not_found:
  assumes "a \<notin> set inheritedKeys"
    and "\<forall>pos. indexOf CHR ''.'' a = Some pos \<longrightarrow> aliasOf s (take pos a) = None"
  shows "getPathOfAlias (setPathOfAlias e s a None) a = (None, setPathOfAlias e s a None)"
proof (cases "indexOf CHR ''.'' a")
  case None
  then show ?thesis using assms(1)
    by (simp add: getPathOfAlias_def setPathOfAlias_def aliasOf_delete_same)
next
  case (Some pos)
  then have "take pos a \<noteq> a" by (rule indexOf_take_neq)
  moreover have "aliasOf s (take pos a) = None" using assms(2) Some by simp
  ultimately show ?thesis using Some assms(1)
    by (simp add: getPathOfAlias_def setPathOfAlias_def aliasOf_delete_same aliasOf_delete_other)
qed

theorem removed_alias_not_found_witness:
  "aliasOf (setPathOfAlias exampleEnv (initialState exampleEnv) ''app.models'' (Some ''/srv/m'')) ''app.models''
     = Some (JStr ''/srv/m'')
   \<and> ''app.models'' \<notin> set inheritedKeys
   \<and> indexOf CHR ''.'' ''app.models'' = Some 3
   \<and> aliasOf (setPathOfAlias exampleEnv (initialState exampleEnv) ''app.models'' (Some ''/srv/m'')) ''app'' = None
   \<and> fst (getPathOfAlias
        (setPathOfAlias exampleEnv (setPathOfAlias exampleEnv (initialState exampleEnv) ''app.models'' (Some ''/srv/m''))
           ''app.models'' None) ''app.models'') = None"
proof -
  let ?s = "setPathOfAlias exampleEnv (initialState exampleEnv) ''app.models'' (Some ''/srv/m'')"
  have e: "aliasOf ?s ''app.models'' = Some (JStr ''/srv/m'')"
    by (simp add: exampleEnv_def initialState_def setPathOfAlias_def aliasOf_def table_defs
        path_resolve_def path_parts_def normalizeArray_def)
  have n: "''app.models'' \<notin> set inheritedKeys" by (simp add: inheritedKeys_def objectPrototype_def)
  have i: "indexOf CHR ''.'' ''app.models'' = Some 3" by (simp add: indexOf_def)
  have r: "aliasOf ?s ''app'' = None"
    by (simp add: exampleEnv_def initialState_def setPathOfAlias_def aliasOf_def table_defs)
  have h: "\<forall>pos. indexOf CHR ''.'' ''app.models'' = Some pos \<longrightarrow> aliasOf ?s (take pos ''app.models'') = None"
    using i r by simp
  from removed_alias_not_found [OF n h, of exampleEnv] e n i r show ?thesis by simp
qed

section \<open>Facts about the directory scan\<close>

text \<open>
  The value of \<open>stat\<close> that the loop carries over from an earlier probe is never that of a
  regular file, so the scan finds what the specification says.
\<close>

lemma scanPaths_firstClassFile:
  "stat \<noteq> Some File \<Longrightarrow> scanPaths e name stat paths = firstClassFile e name paths"
proof (induction paths arbitrary: stat)
  case Nil
  then show ?case by (simp add: firstClassFile_def)
next
  case (Cons d ds)
  show ?case
  proof (cases "statSync e (path_join [Some d, Some (name @ ''.js'')])")
    case None
    then show ?thesis using Cons by (simp add: firstClassFile_def)
  next
    case (Some st)
    then show ?thesis using Cons.IH [of "Some st"] by (cases st) (simp_all add: firstClassFile_def)
  qed
qed

lemma splitOn_append: "splitOn c (a @ c # b) = splitOn c a @ splitOn c b"
  by (induction a) (auto split: list.splits simp: splitOn_nonempty)

lemma splitOn_no_sep: "c \<notin> set f \<Longrightarrow> splitOn c f = [f]"
  by (induction f) auto

lemma path_parts_snoc:
  assumes "CHR ''/'' \<notin> set f" and "f \<noteq> []"
  shows "path_parts (d @ ''/'' @ f) = path_parts d @ [f]" and "path_parts f = [f]"
  using assms by (simp_all add: path_parts_def splitOn_append splitOn_no_sep)

lemma normalizeArray_up_snoc:
  assumes "f \<noteq> ''.''" and "f \<noteq> ''..''"
  shows "\<exists>r up. normalizeArray_up (xs @ [f]) = (r @ [f], up)"
proof (induction xs)
  case Nil
  show ?case using assms by simp
next
  case (Cons x xs)
  then obtain r up where "normalizeArray_up (xs @ [f]) = (r @ [f], up)" by blast
  then show ?case by (auto intro: exI [of _ "x # r"])
qed

lemma normalizeArray_snoc:
  assumes "f \<noteq> ''.''" and "f \<noteq> ''..''"
  shows "\<exists>r. normalizeArray (xs @ [f]) b = r @ [f]"
proof -
  obtain r up where "normalizeArray_up (xs @ [f]) = (r @ [f], up)"
    using normalizeArray_up_snoc [OF assms] by blast
  then show ?thesis by (cases b) (auto simp: normalizeArray_def intro: exI [of _ "replicate up ''..'' @ r"])
qed

lemma joinSep_snoc: "joinSep sep (r @ [f]) = (if r = [] then f else joinSep sep r @ sep @ f)"
  by (induction sep r rule: joinSep.induct) auto

lemma takeWhile_all: "c \<notin> set f \<Longrightarrow> takeWhile (\<lambda>x. x \<noteq> c) f = f"
  by (induction f) auto

lemma path_basename_plain: "CHR ''/'' \<notin> set f \<Longrightarrow> path_basename f = f"
  by (simp add: path_basename_def takeWhile_all del: takeWhile_eq_all_conv)

lemma path_basename_slash:
  assumes "CHR ''/'' \<notin> set f"
  shows "path_basename (z @ CHR ''/'' # f) = f"
proof -
  have "takeWhile (\<lambda>x. x \<noteq> CHR ''/'') (rev f @ CHR ''/'' # rev z) = rev f"
    using assms by (induction f rule: rev_induct) auto
  then show ?thesis unfolding path_basename_def by simp
qed

lemma path_basename_suffix:
  assumes "CHR ''/'' \<notin> set f" and "y = [] \<or> last y = CHR ''/''"
  shows "path_basename (y @ f) = f"
proof (cases "y = []")
  case True
  then show ?thesis using assms(1) by (simp add: path_basename_plain)
next
  case False
  then have "butlast y @ [last y] = y" by simp
  then have "y @ f = butlast y @ CHR ''/'' # f" using assms(2) False by (metis append.assoc append_Cons append_Nil)
  then show ?thesis by (simp only: path_basename_slash [OF assms(1)])
qed

lemma path_normalize_basename:
  assumes "CHR ''/'' \<notin> set f" and "f \<noteq> []" and "f \<noteq> ''.''" and "f \<noteq> ''..''"
    and "path_parts p = xs @ [f]" and "last p \<noteq> CHR ''/''"
  shows "path_basename (path_normalize p) = f"
proof -
  obtain r where r: "normalizeArray (path_parts p) (take 1 p \<noteq> ''/'') = r @ [f]"
    using normalizeArray_snoc [OF assms(3,4)] assms(5) by metis
  have j: "joinSep ''/'' (r @ [f]) \<noteq> []" using assms(2) by (simp add: joinSep_snoc)
  have "path_normalize p = (if take 1 p = ''/'' then ''/'' else []) @ joinSep ''/'' (r @ [f])"
    using r j assms(6) by (simp add: path_normalize_def Let_def)
  also have "\<dots> = ((if take 1 p = ''/'' then ''/'' else []) @ (if r = [] then [] else joinSep ''/'' r @ ''/'')) @ f"
    (is "_ = ?y @ f")
    by (simp add: joinSep_snoc)
  finally have n: "path_normalize p = ?y @ f" .
  have "?y = [] \<or> last ?y = CHR ''/''" by simp
  then show ?thesis unfolding n by (rule path_basename_suffix [OF assms(1)])
qed

text \<open>
  The class file that the scan builds for a name without a slash has the name and the
  extension as its base name, whatever the directory is.
\<close>

lemma classFile_basename:
  assumes "CHR ''/'' \<notin> set name"
  shows "path_basename (path_join [Some d, Some (name @ ''.js'')]) = name @ ''.js''"
proof -
  let ?f = "name @ ''.js''"
  have f: "CHR ''/'' \<notin> set ?f" "?f \<noteq> []" "?f \<noteq> ''.''" "?f \<noteq> ''..''"
    using assms by (auto simp: append_eq_Cons_conv)
  show ?thesis
  proof (cases "d = []")
    case True
    then have "path_join [Some d, Some ?f] = path_normalize ?f"
      by (simp add: path_join_def nonEmptyStrings_def)
    moreover have "path_parts ?f = [] @ [?f]" using path_parts_snoc(2) [OF f(1,2)] by simp
    ultimately show ?thesis using path_normalize_basename [OF f] by simp
  next
    case False
    then have "path_join [Some d, Some ?f] = path_normalize (d @ ''/'' @ ?f)"
      by (simp add: path_join_def nonEmptyStrings_def)
    moreover have "path_parts (d @ ''/'' @ ?f) = path_parts d @ [?f]" by (rule path_parts_snoc(1) [OF f(1,2)])
    ultimately show ?thesis using path_normalize_basename [OF f, of "d @ ''/'' @ ?f" "path_parts d"] by simp
  qed
qed

lemma scanPaths_basename:
  assumes "CHR ''/'' \<notin> set name" and "scanPaths e name None paths = Some classFile"
  shows "path_basename classFile = name @ ''.js''"
  using assms classFile_basename [OF assms(1)]
  by (auto simp: scanPaths_firstClassFile firstClassFile_def split: option.splits)

lemma firstClassFile_basename:
  assumes "CHR ''/'' \<notin> set name" and "firstClassFile e name paths = Some classFile"
  shows "path_basename classFile = name @ ''.js''"
  using assms classFile_basename [OF assms(1)]
  by (auto simp: firstClassFile_def split: option.splits)

section \<open>Facts about the example states\<close>

lemmas import_defs = importAlias_def importString_def importedAs_def lastIndexOf_def

lemmas example_defs = exampleEnv_def exampleAppState_def installedEnv_def debugEnv_def
  exampleFiles_def exampleModules_def initialState_def baseMethods_def caseInsensitive_def
  lowerCase_def

lemma modelsState_eq:
  "modelsState = exampleAppState\<lparr>
     v_aliases := (v_aliases exampleAppState)(''app.models.*'' \<mapsto> ''/srv/app/models''),
     v_includePaths := Some [''/srv'', ''/srv/app/models''],
     v_imports := (v_imports exampleAppState)(''app.models.*'' \<mapsto> ''/srv/app/models'')\<rparr>"
  by (simp add: modelsState_def import_defs alias_defs table_defs path_defs example_defs)

lemma accountState_eq:
  "accountState = exampleAppState\<lparr>
     v_aliases := (v_aliases exampleAppState)(''app.models.Account'' \<mapsto> ''/srv/app/models/Account''),
     v_classMap := [''Account'' \<mapsto> ''/srv/app/models/Account.js'']\<rparr>"
  by (simp add: accountState_def import_defs alias_defs table_defs path_defs example_defs)

lemma typoState_eq:
  "typoState = exampleAppState\<lparr>
     v_aliases := (v_aliases exampleAppState)(''app.models.Typo'' \<mapsto> ''/srv/app/models/Typo''),
     v_classMap := [''Typo'' \<mapsto> ''/srv/app/models/Typo.js'']\<rparr>"
  by (simp add: typoState_def import_defs alias_defs table_defs path_defs example_defs)

lemma exampleAppState_fields:
  "target exampleAppState = map_of (map (\<lambda>m. (m, JFun (methodSource m))) baseMethods)"
  "targetProto exampleAppState = None"
  "v_classMap exampleAppState = Map.empty"
  "v_includePaths exampleAppState = None"
  "v_imports exampleAppState = Map.empty"
  by (simp_all add: exampleAppState_def setPathOfAlias_def initialState_def)

lemma example_states_ordinary:
  "ordinaryTables exampleAppState" "ordinaryTables modelsState" "ordinaryTables accountState"
  "ordinaryTables typoState"
  by (simp_all add: ordinaryTables_def ordinaryTarget_def modelsState_eq accountState_eq typoState_eq
      exampleAppState_fields baseMethods_def)

section \<open>Facts about the registry\<close>

text \<open>
  Where \<open>hasOwnProperty\<close> is the inherited function, the handler is the chain of lookups that
  it is written as.
\<close>

lemma ordinaryTarget_hasOwn:
  "ordinaryTarget s \<Longrightarrow>
   hasOwnPropertyCall e (targetRead e s ''hasOwnProperty'') own x = Inr own"
  by (simp add: ordinaryTarget_def targetRead_def targetInherited_def inherited_def
      objectPrototype_def hasOwnPropertyCall_def nativeHasOwnProperty_def)

lemma registryGet_bound:
  "ordinaryTarget s \<Longrightarrow> target s name = Some v \<Longrightarrow> registryGet e s name = (Inr v, s)"
  by (simp add: registryGet_def ordinaryTarget_hasOwn returnTarget_def, simp add: targetRead_def)

lemma assign_return:
  "name \<noteq> ''__proto__'' \<Longrightarrow>
   returnTarget e (assignTarget s name m) name = (Inr m, bindClass s name m)"
  by (simp add: returnTarget_def assignTarget_def targetRead_def bindClass_def)

lemma bind_return: "returnTarget e (bindClass s name m) name = (Inr m, bindClass s name m)"
  by (simp add: returnTarget_def targetRead_def bindClass_def)

lemma miss_return:
  "target s name = None \<Longrightarrow> targetProto s = None \<Longrightarrow> name \<notin> set inheritedKeys \<Longrightarrow>
   returnTarget e s name = (Inr JUndefined, s)"
  by (simp add: returnTarget_def targetRead_def targetInherited_def inherited_other)

lemma proto_inherited: "''__proto__'' \<in> set inheritedKeys" "''hasOwnProperty'' \<in> set inheritedKeys"
  by (simp_all add: inheritedKeys_def objectPrototype_def)

lemma registryGet_unbound:
  assumes "ordinaryTables s" and "target s name = None" and "name \<notin> set inheritedKeys"
  shows "registryGet e s name =
     (case map_of coreClasses name of
        Some rel \<Rightarrow>
          (case require e (path_join [Some (dirname e), Some rel]) of
             None \<Rightarrow> (Inl LoadError, s)
           | Some m \<Rightarrow> (Inr m, bindClass s name m))
      | None \<Rightarrow>
         (case v_classMap s name of
            Some cfile \<Rightarrow>
              (case require e cfile of
                 None \<Rightarrow> (Inl LoadError, s)
               | Some m \<Rightarrow> (Inr m, bindClass s name m))
          | None \<Rightarrow>
             (case v_includePaths s of
                None \<Rightarrow> (Inr JUndefined, s)
              | Some paths \<Rightarrow>
                 (case firstClassFile e name paths of
                    None \<Rightarrow> (Inr JUndefined, s)
                  | Some cfile \<Rightarrow>
                     (case require e cfile of
                        None \<Rightarrow> (Inl LoadError, s)
                      | Some m \<Rightarrow>
                         if debug e \<and> path_basename cfile \<noteq> name @ ''.js''
                         then (Inl ClassFileMismatch, bindClass s name m)
                         else (Inr m, bindClass s name m))))))"
proof -
  have p: "name \<noteq> ''__proto__''" using assms(3) proto_inherited(1) by auto
  have o: "ordinaryTarget s" "v_classMap s ''hasOwnProperty'' = None" "targetProto s = None"
    using assms(1) by (simp_all add: ordinaryTables_def ordinaryTarget_def)
  have a: "assignTarget s name m = bindClass s name m" for m
    using p by (simp add: assignTarget_def)
  show ?thesis
    using assms(2) o(2)
    by (simp add: registryGet_def ordinaryTarget_hasOwn [OF o(1)] bind_return
        miss_return [OF assms(2) o(3) assms(3)] a scanPaths_firstClassFile
        cong: option.case_cong if_cong)
qed

text \<open>
  A reference changes the target at the referenced name only, and only when that name was
  not bound.
\<close>

lemma registryGet_keeps:
  assumes "ordinaryTarget s" and "target s name = Some m"
  shows "target (snd (registryGet e s name')) name = Some m"
proof -
  have b: "target (assignTarget s name' v) name = Some m" if "name' \<noteq> name" for v
    using assms that by (simp add: assignTarget_def bindClass_def)
  show ?thesis
  proof (cases "name' = name")
    case True
    then show ?thesis using assms by (simp add: registryGet_bound)
  next
    case False
    then show ?thesis using assms(2) b [OF False]
      by (auto simp: registryGet_def returnTarget_def split: sum.splits bool.splits option.splits)
  qed
qed

lemma registryGet_keeps_ordinaryTarget:
  assumes "ordinaryTarget s" and "name' \<notin> set inheritedKeys"
  shows "ordinaryTarget (snd (registryGet e s name'))"
proof -
  have n: "name' \<noteq> ''__proto__''" "name' \<noteq> ''hasOwnProperty''"
    using assms(2) proto_inherited by auto
  have b: "ordinaryTarget (assignTarget s name' v)" for v
    using assms(1) n by (simp add: assignTarget_def bindClass_def ordinaryTarget_def)
  show ?thesis using assms(1) b
    by (auto simp: registryGet_def returnTarget_def split: sum.splits bool.splits option.splits)
qed

section \<open>Resolution through the registry\<close>

text \<open>
  Claim C5 does not hold of the code. The check under the debug flag compares the base name of
  the path that the scan itself built from the requested name with the requested name; the name
  of the file on disk does not enter it. For every name without a slash the two are equal, so a
  reference never fails with \<open>ClassFileMismatch\<close>, whatever the file system holds and
  whether or not the debug flag is set.
\<close>

theorem debug_check_never_fires:
  assumes "CHR ''/'' \<notin> set name"
  shows "fst (registryGet e s name) \<noteq> Inl ClassFileMismatch"
  using scanPaths_basename [OF assms]
  by (auto simp: registryGet_def returnTarget_def hasOwnPropertyCall_def
      split: option.splits sum.splits bool.splits jsval.splits)

text \<open>
  With the debug flag set, on a volume that holds \<open>/srv/app/models/Account.js\<close> and finds it
  under any case, a reference to \<open>account\<close> after \<open>import('app.models.*')\<close> binds the
  module of \<open>Account.js\<close> under \<open>account\<close> and returns it.
\<close>

theorem debug_check_never_fires_witness:
  "debug debugEnv
   \<and> v_includePaths modelsState = Some [''/srv'', ''/srv/app/models'']
   \<and> map_of exampleFiles ''/srv/app/models/account.js'' = None
   \<and> statSync debugEnv ''/srv/app/models/account.js'' = Some File
   \<and> CHR ''/'' \<notin> set ''account''
   \<and> fst (registryGet debugEnv modelsState ''account'') \<noteq> Inl ClassFileMismatch
   \<and> registryGet debugEnv modelsState ''account''
        = (Inr (JFun ''function Account() {}''), bindClass modelsState ''account'' (JFun ''function Account() {}''))"
proof -
  have n: "CHR ''/'' \<notin> set ''account''" by simp
  have 1: "debug debugEnv" by (simp add: debugEnv_def)
  have 2: "v_includePaths modelsState = Some [''/srv'', ''/srv/app/models'']"
    by (simp add: modelsState_eq)
  have 3: "map_of exampleFiles ''/srv/app/models/account.js'' = None" by (simp add: exampleFiles_def)
  have 4: "statSync debugEnv ''/srv/app/models/account.js'' = Some File"
    by (simp add: example_defs)
  have i: "''account'' \<notin> set inheritedKeys" by (simp add: inheritedKeys_def objectPrototype_def)
  have t: "target modelsState ''account'' = None"
    by (simp add: modelsState_eq exampleAppState_fields baseMethods_def)
  have 5: "registryGet debugEnv modelsState ''account''
        = (Inr (JFun ''function Account() {}''), bindClass modelsState ''account'' (JFun ''function Account() {}''))"
    unfolding registryGet_unbound [OF example_states_ordinary(2) t i]
    by (simp add: firstClassFile_def modelsState_eq exampleAppState_fields coreClasses_def path_defs
        debugEnv_def caseInsensitive_def lowerCase_def exampleFiles_def exampleModules_def
        path_basename_def)
  from debug_check_never_fires [OF n, of debugEnv modelsState] n 1 2 3 4 5 show ?thesis by simp
qed

lemma getPathOfAlias_sameTarget: "sameTarget (snd (getPathOfAlias s a)) s"
  by (simp add: getPathOfAlias_def sameTarget_def Let_def split: option.splits)

lemma setPathOfAlias_sameTarget: "sameTarget (setPathOfAlias e s a p) s"
  by (simp add: setPathOfAlias_def sameTarget_def split: option.splits)

lemma setApplication_sameTarget: "sameTarget (snd (setApplication s x)) s"
  by (simp add: setApplication_def sameTarget_def split: option.splits)

lemma importAlias_lazy_sameTarget: "sameTarget (snd (importAlias e s v False)) s"
proof -
  have g: "target s1 = target s \<and> targetProto s1 = targetProto s" if "getPathOfAlias s a = (r, s1)" for a r s1
    using getPathOfAlias_sameTarget [of s a] that by (simp add: sameTarget_def)
  have "sameTarget (snd (importString e s a False)) s" for a
    by (auto simp: importString_def sameTarget_def Let_def dest: g split: option.splits prod.splits)
  then show ?thesis
    by (auto simp: importAlias_def sameTarget_def split: option.splits jsval.splits)
qed

text \<open>
  Claim C1, as stated, fails in two places. A reference can raise where no stage produces a
  type: after \<open>import('app.models.Typo')\<close>, which records the class file without looking for
  it, the name \<open>Typo\<close> is in no core table, its recorded file does not exist and there is no
  include path list; the reference raises what \<open>require\<close> raises. And a binding does not stay
  for good: after a reference has bound \<open>User\<close> to the class of the working directory, the
  forced import \<open>import('app.models.User', true)\<close> binds the name to another class.
\<close>

theorem lazily_imported_missing_file_raises:
  "target typoState ''Typo'' = None
   \<and> map_of coreClasses ''Typo'' = None
   \<and> v_classMap typoState ''Typo'' = Some ''/srv/app/models/Typo.js''
   \<and> statSync installedEnv ''/srv/app/models/Typo.js'' = None
   \<and> require installedEnv ''/srv/app/models/Typo.js'' = None
   \<and> v_includePaths typoState = None
   \<and> registryGet installedEnv typoState ''Typo'' = (Inl LoadError, typoState)
   \<and> target userState ''User'' = Some (JFun ''function User() { this.home = true; }'')
   \<and> target (snd (importAlias installedEnv userState (JStr ''app.models.User'') True)) ''User''
       = Some (JFun ''function User() {}'')"
proof -
  have i: "''Typo'' \<notin> set inheritedKeys" "''User'' \<notin> set inheritedKeys"
    by (simp_all add: inheritedKeys_def objectPrototype_def)
  have t: "target typoState ''Typo'' = None"
    by (simp add: typoState_eq exampleAppState_fields baseMethods_def)
  have 1: "registryGet installedEnv typoState ''Typo'' = (Inl LoadError, typoState)"
    unfolding registryGet_unbound [OF example_states_ordinary(4) t i(1)]
    by (simp add: typoState_eq exampleAppState_fields coreClasses_def installedEnv_def
        exampleFiles_def exampleModules_def)
  have u: "target modelsState ''User'' = None"
    by (simp add: modelsState_eq exampleAppState_fields baseMethods_def)
  have 2: "userState = bindClass modelsState ''User'' (JFun ''function User() { this.home = true; }'')"
    unfolding userState_def registryGet_unbound [OF example_states_ordinary(2) u i(2)]
    by (simp add: firstClassFile_def modelsState_eq exampleAppState_fields coreClasses_def path_defs
        installedEnv_def exampleFiles_def exampleModules_def path_basename_def)
  have 3: "target (snd (importAlias installedEnv userState (JStr ''app.models.User'') True)) ''User''
       = Some (JFun ''function User() {}'')"
    unfolding 2
    by (simp add: bindClass_def assignTarget_def modelsState_eq import_defs alias_defs table_defs
        path_defs example_defs)
  have c: "map_of coreClasses ''Typo'' = None" by (simp add: coreClasses_def)
  have m: "v_classMap typoState ''Typo'' = Some ''/srv/app/models/Typo.js''"
    by (simp add: typoState_eq)
  have f: "statSync installedEnv ''/srv/app/models/Typo.js'' = None"
    "require installedEnv ''/srv/app/models/Typo.js'' = None"
    by (simp_all add: installedEnv_def exampleFiles_def exampleModules_def)
  have p: "v_includePaths typoState = None" by (simp add: typoState_eq exampleAppState_fields)
  have 4: "target userState ''User'' = Some (JFun ''function User() { this.home = true; }'')"
    by (simp add: 2 bindClass_def)
  from t c m f p 1 4 3 show ?thesis by simp
qed

text \<open>
  Claim C1, amended. In a state where \<open>hasOwnProperty\<close> is the inherited function on the
  target and on the class map, for every type name that is not bound on the registry and is not
  a key that every object inherits, a reference looks the name up in the core-class table, then
  in the class map, then scans the include path list in list order for a regular file named
  after the type with the extension \<open>.js\<close>. The first of the three that has an entry, or a
  file, for the name decides: its file is loaded and the result bound under the name. The load
  is not guarded: when it raises, the error reaches the caller, nothing is bound and no later
  stage is tried. When no stage has an entry or a file for the name, the reference yields
  \<open>undefined\<close> and changes nothing. (After a scan hit the binding is made in every case; the
  reference returns it when the debug flag is off or the name has no slash.) A binding stays
  and is what a later reference returns, in any surroundings and without resolving again,
  through later references to other types, alias operations, \<open>setApplication\<close> and imports
  that are not forced; a forced import, which \<open>createComponent\<close> can make as well, may
  replace it.
\<close>

theorem registry_resolution_order:
  assumes "target s name = None" and "ordinaryTables s" and "name \<notin> set inheritedKeys"
  shows
   "(\<forall>rel. map_of coreClasses name = Some rel \<longrightarrow>
       (\<forall>m. require e (path_join [Some (dirname e), Some rel]) = Some m \<longrightarrow>
            registryGet e s name = (Inr m, bindClass s name m))
     \<and> (require e (path_join [Some (dirname e), Some rel]) = None \<longrightarrow>
            registryGet e s name = (Inl LoadError, s)))
  \<and> (map_of coreClasses name = None \<longrightarrow>
       (\<forall>cfile. v_classMap s name = Some cfile \<longrightarrow>
          (\<forall>m. require e cfile = Some m \<longrightarrow> registryGet e s name = (Inr m, bindClass s name m))
        \<and> (require e cfile = None \<longrightarrow> registryGet e s name = (Inl LoadError, s)))
     \<and> (v_classMap s name = None \<longrightarrow>
          (\<forall>paths cfile. v_includePaths s = Some paths \<and> firstClassFile e name paths = Some cfile \<longrightarrow>
             (\<forall>m. require e cfile = Some m \<longrightarrow>
                  snd (registryGet e s name) = bindClass s name m
                \<and> (CHR ''/'' \<notin> set name \<or> \<not> debug e \<longrightarrow> fst (registryGet e s name) = Inr m))
           \<and> (require e cfile = None \<longrightarrow> registryGet e s name = (Inl LoadError, s)))
        \<and> (v_includePaths s = None \<or> (\<exists>paths. v_includePaths s = Some paths \<and> firstClassFile e name paths = None) \<longrightarrow>
             registryGet e s name = (Inr JUndefined, s))))
  \<and> (\<forall>m. ordinaryTarget (bindClass s name m) \<and> target (bindClass s name m) name = Some m)
  \<and> (\<forall>s1 m. ordinaryTarget s1 \<and> target s1 name = Some m \<longrightarrow>
        (\<forall>e1. registryGet e1 s1 name = (Inr m, s1))
      \<and> (\<forall>e1 name1. name1 \<notin> set inheritedKeys \<longrightarrow>
            ordinaryTarget (snd (registryGet e1 s1 name1))
          \<and> target (snd (registryGet e1 s1 name1)) name = Some m)
      \<and> (\<forall>e1 a p x v. sameTarget (snd (getPathOfAlias s1 a)) s1
          \<and> sameTarget (setPathOfAlias e1 s1 a p) s1
          \<and> sameTarget (snd (setApplication s1 x)) s1
          \<and> sameTarget (snd (importAlias e1 s1 v False)) s1))"
proof -
  note u = registryGet_unbound [OF assms(2) assms(1) assms(3), of e]
  have n: "name \<noteq> ''hasOwnProperty''" using assms(3) proto_inherited(2) by auto
  have o: "ordinaryTarget s" using assms(2) by (simp add: ordinaryTables_def)
  show ?thesis
  proof (intro conjI allI impI)
    fix rel m
    assume "map_of coreClasses name = Some rel" "require e (path_join [Some (dirname e), Some rel]) = Some m"
    then show "registryGet e s name = (Inr m, bindClass s name m)" using u by simp
  next
    fix rel
    assume "map_of coreClasses name = Some rel" "require e (path_join [Some (dirname e), Some rel]) = None"
    then show "registryGet e s name = (Inl LoadError, s)" using u by simp
  next
    fix cfile m
    assume "map_of coreClasses name = None" "v_classMap s name = Some cfile" "require e cfile = Some m"
    then show "registryGet e s name = (Inr m, bindClass s name m)" using u by simp
  next
    fix cfile
    assume "map_of coreClasses name = None" "v_classMap s name = Some cfile" "require e cfile = None"
    then show "registryGet e s name = (Inl LoadError, s)" using u by simp
  next
    fix paths cfile m
    assume "map_of coreClasses name = None" "v_classMap s name = None"
      "v_includePaths s = Some paths \<and> firstClassFile e name paths = Some cfile" "require e cfile = Some m"
    then show "snd (registryGet e s name) = bindClass s name m" using u by simp
  next
    fix paths cfile m
    assume a: "map_of coreClasses name = None" "v_classMap s name = None"
      "v_includePaths s = Some paths \<and> firstClassFile e name paths = Some cfile" "require e cfile = Some m"
      and d: "CHR ''/'' \<notin> set name \<or> \<not> debug e"
    have "debug e \<Longrightarrow> path_basename cfile = name @ ''.js''"
      using d a(3) firstClassFile_basename by blast
    then show "fst (registryGet e s name) = Inr m" using a u by auto
  next
    fix paths cfile
    assume "map_of coreClasses name = None" "v_classMap s name = None"
      "v_includePaths s = Some paths \<and> firstClassFile e name paths = Some cfile" "require e cfile = None"
    then show "registryGet e s name = (Inl LoadError, s)" using u by simp
  next
    assume "map_of coreClasses name = None" "v_classMap s name = None"
      "v_includePaths s = None \<or> (\<exists>paths. v_includePaths s = Some paths \<and> firstClassFile e name paths = None)"
    then show "registryGet e s name = (Inr JUndefined, s)" using u by auto
  next
    fix m
    show "ordinaryTarget (bindClass s name m)" using o n by (simp add: ordinaryTarget_def bindClass_def)
  next
    fix m
    show "target (bindClass s name m) name = Some m" by (simp add: bindClass_def)
  next
    fix s1 m e1
    assume "ordinaryTarget s1 \<and> target s1 name = Some m"
    then show "registryGet e1 s1 name = (Inr m, s1)" by (simp add: registryGet_bound)
  next
    fix s1 m e1 name1
    assume "ordinaryTarget s1 \<and> target s1 name = Some m" "name1 \<notin> set inheritedKeys"
    then show "ordinaryTarget (snd (registryGet e1 s1 name1))"
      by (simp add: registryGet_keeps_ordinaryTarget)
  next
    fix s1 m e1 name1
    assume "ordinaryTarget s1 \<and> target s1 name = Some m" "name1 \<notin> set inheritedKeys"
    then show "target (snd (registryGet e1 s1 name1)) name = Some m"
      by (simp add: registryGet_keeps)
  next
    fix s1 a
    show "sameTarget (snd (getPathOfAlias s1 a)) s1" by (rule getPathOfAlias_sameTarget)
  next
    fix s1 e1 a p
    show "sameTarget (setPathOfAlias e1 s1 a p) s1" by (rule setPathOfAlias_sameTarget)
  next
    fix s1 x
    show "sameTarget (snd (setApplication s1 x)) s1" by (rule setApplication_sameTarget)
  next
    fix s1 e1 v
    show "sameTarget (snd (importAlias e1 s1 v False)) s1" by (rule importAlias_lazy_sameTarget)
  qed
qed

text \<open>
  The stages on the example process: \<open>CLogger\<close> from the core table, \<open>Account\<close> from the
  class map after \<open>import('app.models.Account')\<close>, \<open>Account\<close> from the scan after
  \<open>import('app.models.*')\<close>, a miss, and a second reference in other surroundings.
\<close>

theorem registry_resolution_order_witness:
  "registryGet installedEnv exampleAppState ''CLogger''
     = (Inr (JFun ''function CLogger() {}''), bindClass exampleAppState ''CLogger'' (JFun ''function CLogger() {}''))
   \<and> registryGet installedEnv accountState ''Account''
     = (Inr (JFun ''function Account() {}''), bindClass accountState ''Account'' (JFun ''function Account() {}''))
   \<and> v_includePaths modelsState = Some [''/srv'', ''/srv/app/models'']
   \<and> registryGet installedEnv modelsState ''Account''
     = (Inr (JFun ''function Account() {}''), bindClass modelsState ''Account'' (JFun ''function Account() {}''))
   \<and> registryGet installedEnv modelsState ''Nope'' = (Inr JUndefined, modelsState)
   \<and> registryGet debugEnv (bindClass modelsState ''Account'' (JFun ''function Account() {}'')) ''Account''
     = (Inr (JFun ''function Account() {}''), bindClass modelsState ''Account'' (JFun ''function Account() {}''))"
proof -
  let ?logger = "JFun ''function CLogger() {}''" and ?account = "JFun ''function Account() {}''"
  have i: "''CLogger'' \<notin> set inheritedKeys" "''Account'' \<notin> set inheritedKeys" "''Nope'' \<notin> set inheritedKeys"
    by (simp_all add: inheritedKeys_def objectPrototype_def)
  have t1: "target exampleAppState ''CLogger'' = None"
    by (simp add: exampleAppState_fields baseMethods_def)
  have c1: "map_of coreClasses ''CLogger'' = Some ''logging/CLogger''" by (simp add: coreClasses_def)
  have r1: "require installedEnv (path_join [Some (dirname installedEnv), Some ''logging/CLogger'']) = Some ?logger"
    by (simp add: installedEnv_def exampleModules_def path_defs)
  have 1: "registryGet installedEnv exampleAppState ''CLogger'' = (Inr ?logger, bindClass exampleAppState ''CLogger'' ?logger)"
    using registry_resolution_order [OF t1 example_states_ordinary(1) i(1), of installedEnv] c1 r1 by simp
  have t2: "target accountState ''Account'' = None"
    by (simp add: accountState_eq exampleAppState_fields baseMethods_def)
  have c2: "map_of coreClasses ''Account'' = None" by (simp add: coreClasses_def)
  have m2: "v_classMap accountState ''Account'' = Some ''/srv/app/models/Account.js''"
    by (simp add: accountState_eq)
  have r2: "require installedEnv ''/srv/app/models/Account.js'' = Some ?account"
    by (simp add: installedEnv_def exampleModules_def)
  have 2: "registryGet installedEnv accountState ''Account'' = (Inr ?account, bindClass accountState ''Account'' ?account)"
    using registry_resolution_order [OF t2 example_states_ordinary(3) i(2), of installedEnv] c2 m2 r2 by simp
  have t3: "target modelsState ''Account'' = None"
    by (simp add: modelsState_eq exampleAppState_fields baseMethods_def)
  have m3: "v_classMap modelsState ''Account'' = None"
    by (simp add: modelsState_eq exampleAppState_fields)
  have p3: "v_includePaths modelsState = Some [''/srv'', ''/srv/app/models'']"
    by (simp add: modelsState_eq)
  have f3: "firstClassFile installedEnv ''Account'' [''/srv'', ''/srv/app/models''] = Some ''/srv/app/models/Account.js''"
    by (simp add: firstClassFile_def installedEnv_def exampleFiles_def path_defs)
  have d3: "CHR ''/'' \<notin> set ''Account'' \<or> \<not> debug installedEnv" by simp
  note th3 = registry_resolution_order [OF t3 example_states_ordinary(2) i(2), of installedEnv]
  have 3: "registryGet installedEnv modelsState ''Account'' = (Inr ?account, bindClass modelsState ''Account'' ?account)"
    using th3 c2 m3 p3 f3 r2 d3 by (simp add: prod_eq_iff)
  have t4: "target modelsState ''Nope'' = None"
    by (simp add: modelsState_eq exampleAppState_fields baseMethods_def)
  have c4: "map_of coreClasses ''Nope'' = None" by (simp add: coreClasses_def)
  have m4: "v_classMap modelsState ''Nope'' = None"
    by (simp add: modelsState_eq exampleAppState_fields)
  have f4: "firstClassFile installedEnv ''Nope'' [''/srv'', ''/srv/app/models''] = None"
    by (simp add: firstClassFile_def installedEnv_def exampleFiles_def path_defs)
  have 4: "registryGet installedEnv modelsState ''Nope'' = (Inr JUndefined, modelsState)"
    using registry_resolution_order [OF t4 example_states_ordinary(2) i(3), of installedEnv] c4 m4 p3 f4 by simp
  have b: "ordinaryTarget (bindClass modelsState ''Account'' ?account)
      \<and> target (bindClass modelsState ''Account'' ?account) ''Account'' = Some ?account"
    using th3 by blast
  have 5: "registryGet debugEnv (bindClass modelsState ''Account'' ?account) ''Account''
       = (Inr ?account, bindClass modelsState ''Account'' ?account)"
    using th3 b by blast
  from 1 2 p3 3 4 5 show ?thesis by simp
qed

section \<open>The include path list\<close>

text \<open>
  Only \<open>import\<close> writes \<open>_includePaths\<close>, and it only appends.
\<close>

lemma registryGet_includePaths: "v_includePaths (snd (registryGet e s name)) = v_includePaths s"
  by (auto simp: registryGet_def returnTarget_def assignTarget_def bindClass_def
      split: option.splits sum.splits bool.splits)

lemma registryGet_includePaths_eq:
  "registryGet e s name = (r, s1) \<Longrightarrow> v_includePaths s1 = v_includePaths s"
  using registryGet_includePaths [of e s name] by simp

lemma getPathOfAlias_includePaths: "v_includePaths (snd (getPathOfAlias s a)) = v_includePaths s"
  by (simp add: getPathOfAlias_def Let_def split: option.splits)

lemma importString_includePaths:
  assumes "v_includePaths s = Some (c # ps)"
  shows "\<exists>ps'. v_includePaths (snd (importString e s a force)) = Some (c # ps @ ps')"
proof (cases "lastIndexOf CHR ''.'' a")
  case None
  have "v_includePaths (snd (importString e s a force)) = v_includePaths s"
    using None registryGet_includePaths [of e s a]
    by (cases "registryGet e s a") (auto simp: importString_def split: sum.splits)
  then show ?thesis using assms by simp
next
  case (Some pos)
  obtain r s1 where g: "getPathOfAlias s a = (r, s1)" by (cases "getPathOfAlias s a")
  then have i: "v_includePaths s1 = Some (c # ps)"
    using getPathOfAlias_includePaths [of s a] assms by simp
  show ?thesis
  proof (cases r)
    case None
    then show ?thesis using Some g i by (simp add: importString_def Let_def)
  next
    case (Some path)
    then show ?thesis using \<open>lastIndexOf CHR ''.'' a = Some pos\<close> g i
      by (auto simp: importString_def Let_def assignTarget_def bindClass_def split: option.splits)
  qed
qed

lemma importAlias_includePaths:
  assumes "v_includePaths s = Some (c # ps)"
  shows "\<exists>ps'. v_includePaths (snd (importAlias e s v force)) = Some (c # ps @ ps')"
proof (cases "importedAs s (toKey v)")
  case (Some r)
  then show ?thesis using assms by (simp add: importAlias_def)
next
  case None
  show ?thesis
  proof (cases v)
    case (JStr a)
    then show ?thesis using None importString_includePaths [OF assms, of e a force]
      by (simp add: importAlias_def)
  qed (use None assms in \<open>simp_all add: importAlias_def\<close>)
qed

lemma createComponent_includePaths:
  assumes "v_includePaths s = Some (c # ps)"
  shows "\<exists>ps'. v_includePaths (fst (snd (createComponent e s cfg args))) = Some (c # ps @ ps')"
proof -
  have ct: "v_includePaths (fst (snd (componentType e s cfg))) = v_includePaths s"
    by (auto simp: componentType_def dest: registryGet_includePaths_eq
        split: config.splits prod.splits sum.splits bool.splits)
  have rt: "\<exists>ps'. v_includePaths (snd (resolveType e s1 ty)) = Some (c # ps @ ps')"
    if "v_includePaths s1 = Some (c # ps)" for s1 ty
  proof -
    obtain r s2 where g: "registryGet e s1 (toKey ty) = (r, s2)" by (cases "registryGet e s1 (toKey ty)")
    then have i: "v_includePaths s2 = Some (c # ps)" using registryGet_includePaths [of e s1 "toKey ty"] that by simp
    show ?thesis using g i importAlias_includePaths [OF i, of e ty True] that
      by (auto simp: resolveType_def split: sum.splits prod.splits)
  qed
  obtain r1 s1 cfg1 where c1: "componentType e s cfg = (r1, s1, cfg1)" by (cases "componentType e s cfg")
  then have i1: "v_includePaths s1 = Some (c # ps)" using ct assms by simp
  show ?thesis
  proof (cases r1)
    case (Inl err)
    then show ?thesis using c1 i1 by (simp add: createComponent_def)
  next
    case (Inr tp)
    obtain ty props where tp: "tp = (ty, props)" by (cases tp)
    obtain r2 s2 where c2: "resolveType e s1 ty = (r2, s2)" by (cases "resolveType e s1 ty")
    then obtain ps' where i2: "v_includePaths s2 = Some (c # ps @ ps')" using rt [OF i1, of ty] by auto
    show ?thesis
    proof (cases r2)
      case (Inl err)
      then show ?thesis using c1 Inr tp c2 i2 by (simp add: createComponent_def)
    next
      case (Inr ty1)
      obtain r3 s3 where c3: "registryGet e s2 (toKey ty1) = (r3, s3)" by (cases "registryGet e s2 (toKey ty1)")
      then have "v_includePaths s3 = Some (c # ps @ ps')"
        using registryGet_includePaths [of e s2 "toKey ty1"] i2 by simp
      then show ?thesis using c1 \<open>r1 = Inr tp\<close> tp c2 Inr c3
        by (auto simp: createComponent_def split: sum.splits)
    qed
  qed
qed

text \<open>
  The scan over a list probes the head and, where the head has no regular file of that name,
  goes on through the rest as the specification says.
\<close>

lemma scanPaths_Cons:
  "scanPaths e name None (c # ps) =
     (if statSync e (path_join [Some c, Some (name @ ''.js'')]) = Some File
      then Some (path_join [Some c, Some (name @ ''.js'')])
      else firstClassFile e name ps)"
proof (cases "statSync e (path_join [Some c, Some (name @ ''.js'')])")
  case None
  then show ?thesis by (simp add: scanPaths_firstClassFile)
next
  case (Some st)
  then show ?thesis by (cases st) (simp_all add: scanPaths_firstClassFile)
qed

text \<open>
  Claim C10. The first import of a directory alias, one whose last segment is the wildcard,
  makes the include path list the working directory followed by the imported directory (the
  working directory alone when the two are the same). No operation of the library changes the
  head of the list afterwards: \<open>import\<close> and \<open>createComponent\<close> only append to it and the
  others leave it as it is. The scan over a list probes its head first: when the class file is
  a regular file in the head directory the scan stops there, and otherwise it goes on to the
  first of the directories after it that has one. Where a reference gets as far as the scan,
  the type is bound to what the file in the head directory loads to when there is one, to what
  the first later directory with such a file gives when there is none, and to nothing when no
  directory has one.
\<close>

theorem include_paths_start_at_cwd:
  "(v_includePaths s = None \<and> importedAs s alias = None \<and> lastIndexOf CHR ''.'' alias = Some pos
      \<and> drop (Suc pos) alias = ''*'' \<and> importAlias e s (JStr alias) force = (Inr (JStr dir), s1)
      \<longrightarrow> v_includePaths s1 = Some (cwd e # (if dir = cwd e then [] else [dir])))
   \<and> (v_includePaths s = Some (c # ps)
      \<longrightarrow> (\<exists>ps'. v_includePaths (snd (importAlias e s v force)) = Some (c # ps @ ps'))
        \<and> (\<exists>ps'. v_includePaths (fst (snd (createComponent e s cfg args))) = Some (c # ps @ ps'))
        \<and> v_includePaths (snd (registryGet e s name)) = Some (c # ps)
        \<and> v_includePaths (snd (getPathOfAlias s alias)) = Some (c # ps)
        \<and> v_includePaths (setPathOfAlias e s alias path) = Some (c # ps)
        \<and> v_includePaths (snd (setApplication s a)) = Some (c # ps))
   \<and> scanPaths e name None (c # ps) =
        (if statSync e (path_join [Some c, Some (name @ ''.js'')]) = Some File
         then Some (path_join [Some c, Some (name @ ''.js'')])
         else firstClassFile e name ps)
   \<and> (ordinaryTables s \<and> target s name = None \<and> name \<notin> set inheritedKeys
      \<and> map_of coreClasses name = None \<and> v_classMap s name = None
      \<and> v_includePaths s = Some (c # ps)
      \<longrightarrow> (\<forall>m. statSync e (path_join [Some c, Some (name @ ''.js'')]) = Some File
               \<and> require e (path_join [Some c, Some (name @ ''.js'')]) = Some m
               \<longrightarrow> target (snd (registryGet e s name)) name = Some m)
        \<and> (\<forall>cfile m. statSync e (path_join [Some c, Some (name @ ''.js'')]) \<noteq> Some File
               \<and> firstClassFile e name ps = Some cfile \<and> require e cfile = Some m
               \<longrightarrow> target (snd (registryGet e s name)) name = Some m)
        \<and> (statSync e (path_join [Some c, Some (name @ ''.js'')]) \<noteq> Some File
               \<and> firstClassFile e name ps = None
               \<longrightarrow> registryGet e s name = (Inr JUndefined, s)))"
proof (intro conjI impI allI)
  assume a: "v_includePaths s = None \<and> importedAs s alias = None \<and> lastIndexOf CHR ''.'' alias = Some pos
      \<and> drop (Suc pos) alias = ''*'' \<and> importAlias e s (JStr alias) force = (Inr (JStr dir), s1)"
  obtain r s0 where g: "getPathOfAlias s alias = (r, s0)" by (cases "getPathOfAlias s alias")
  then have i: "v_includePaths s0 = None" using getPathOfAlias_includePaths [of s "alias"] a by simp
  show "v_includePaths s1 = Some (cwd e # (if dir = cwd e then [] else [dir]))"
    using a g i by (cases r) (auto simp: importAlias_def importString_def Let_def)
next
  assume "v_includePaths s = Some (c # ps)"
  then show "\<exists>ps'. v_includePaths (snd (importAlias e s v force)) = Some (c # ps @ ps')"
    by (rule importAlias_includePaths)
next
  assume "v_includePaths s = Some (c # ps)"
  then show "\<exists>ps'. v_includePaths (fst (snd (createComponent e s cfg args))) = Some (c # ps @ ps')"
    by (rule createComponent_includePaths)
next
  assume "v_includePaths s = Some (c # ps)"
  then show "v_includePaths (snd (registryGet e s name)) = Some (c # ps)"
    by (simp add: registryGet_includePaths)
next
  assume "v_includePaths s = Some (c # ps)"
  then show "v_includePaths (snd (getPathOfAlias s alias)) = Some (c # ps)"
    by (simp add: getPathOfAlias_includePaths)
next
  assume "v_includePaths s = Some (c # ps)"
  then show "v_includePaths (setPathOfAlias e s alias path) = Some (c # ps)"
    by (simp add: setPathOfAlias_def split: option.splits)
next
  assume "v_includePaths s = Some (c # ps)"
  then show "v_includePaths (snd (setApplication s a)) = Some (c # ps)"
    by (simp add: setApplication_def split: option.splits)
next
  show "scanPaths e name None (c # ps) =
        (if statSync e (path_join [Some c, Some (name @ ''.js'')]) = Some File
         then Some (path_join [Some c, Some (name @ ''.js'')])
         else firstClassFile e name ps)"
    by (rule scanPaths_Cons)
next
  fix m
  assume h: "ordinaryTables s \<and> target s name = None \<and> name \<notin> set inheritedKeys
      \<and> map_of coreClasses name = None \<and> v_classMap s name = None
      \<and> v_includePaths s = Some (c # ps)"
    and f: "statSync e (path_join [Some c, Some (name @ ''.js'')]) = Some File
               \<and> require e (path_join [Some c, Some (name @ ''.js'')]) = Some m"
  have "firstClassFile e name (c # ps) = Some (path_join [Some c, Some (name @ ''.js'')])"
    using f by (simp add: firstClassFile_def)
  then show "target (snd (registryGet e s name)) name = Some m"
    using h f by (simp add: registryGet_unbound bindClass_def)
next
  fix cfile m
  assume h: "ordinaryTables s \<and> target s name = None \<and> name \<notin> set inheritedKeys
      \<and> map_of coreClasses name = None \<and> v_classMap s name = None
      \<and> v_includePaths s = Some (c # ps)"
    and f: "statSync e (path_join [Some c, Some (name @ ''.js'')]) \<noteq> Some File
               \<and> firstClassFile e name ps = Some cfile \<and> require e cfile = Some m"
  have "firstClassFile e name (c # ps) = Some cfile"
    using f by (simp add: firstClassFile_def)
  then show "target (snd (registryGet e s name)) name = Some m"
    using h f by (simp add: registryGet_unbound bindClass_def)
next
  assume h: "ordinaryTables s \<and> target s name = None \<and> name \<notin> set inheritedKeys
      \<and> map_of coreClasses name = None \<and> v_classMap s name = None
      \<and> v_includePaths s = Some (c # ps)"
    and f: "statSync e (path_join [Some c, Some (name @ ''.js'')]) \<noteq> Some File
               \<and> firstClassFile e name ps = None"
  have "firstClassFile e name (c # ps) = None"
    using f by (simp add: firstClassFile_def)
  then show "registryGet e s name = (Inr JUndefined, s)"
    using h by (simp add: registryGet_unbound)
qed

text \<open>
  On the example process: \<open>import('app.models.*')\<close> gives the list \<open>/srv\<close>,
  \<open>/srv/app/models\<close>; \<open>import('system.console.*')\<close> appends to it; a reference to \<open>User\<close>,
  which has a class file in both directories, binds the one of the working directory; and a
  reference to \<open>Account\<close>, which has none in the working directory, binds the one under
  \<open>/srv/app/models\<close>.
\<close>

theorem include_paths_start_at_cwd_witness:
  "v_includePaths exampleAppState = None
   \<and> importAlias installedEnv exampleAppState (JStr ''app.models.*'') False = (Inr (JStr ''/srv/app/models''), modelsState)
   \<and> v_includePaths modelsState = Some [''/srv'', ''/srv/app/models'']
   \<and> v_includePaths (snd (importAlias installedEnv modelsState (JStr ''system.console.*'') False))
        = Some [''/srv'', ''/srv/app/models'', ''/opt/yiila/lib/console'']
   \<and> statSync installedEnv ''/srv/User.js'' = Some File
   \<and> statSync installedEnv ''/srv/app/models/User.js'' = Some File
   \<and> target (snd (registryGet installedEnv modelsState ''User'')) ''User''
        = Some (JFun ''function User() { this.home = true; }'')
   \<and> statSync installedEnv ''/srv/Account.js'' = None
   \<and> target (snd (registryGet installedEnv modelsState ''Account'')) ''Account''
        = Some (JFun ''function Account() {}'')"
proof -
  let ?home = "JFun ''function User() { this.home = true; }''"
  let ?account = "JFun ''function Account() {}''"
  have 1: "v_includePaths exampleAppState = None" by (simp add: exampleAppState_fields)
  have 2: "importedAs exampleAppState ''app.models.*'' = None"
    by (simp add: importedAs_def exampleAppState_fields table_defs)
  have 3: "lastIndexOf CHR ''.'' ''app.models.*'' = Some 10" by (simp add: lastIndexOf_def)
  have 4: "drop (Suc 10) ''app.models.*'' = ''*''" by simp
  have "fst (importAlias installedEnv exampleAppState (JStr ''app.models.*'') False) = Inr (JStr ''/srv/app/models'')"
    by (simp add: import_defs alias_defs table_defs path_defs example_defs)
  then have 5: "importAlias installedEnv exampleAppState (JStr ''app.models.*'') False = (Inr (JStr ''/srv/app/models''), modelsState)"
    by (simp add: prod_eq_iff modelsState_def)
  have 6: "v_includePaths modelsState = Some [''/srv'', ''/srv/app/models'']"
    using include_paths_start_at_cwd [of exampleAppState "''app.models.*''" 10 installedEnv False "''/srv/app/models''" modelsState]
      1 2 3 4 5 by (simp add: installedEnv_def)
  have 7: "v_includePaths (snd (importAlias installedEnv modelsState (JStr ''system.console.*'') False))
        = Some [''/srv'', ''/srv/app/models'', ''/opt/yiila/lib/console'']"
    by (simp add: modelsState_eq import_defs alias_defs table_defs path_defs example_defs)
  have 8: "statSync installedEnv ''/srv/User.js'' = Some File"
    "statSync installedEnv ''/srv/app/models/User.js'' = Some File"
    "statSync installedEnv ''/srv/Account.js'' = None"
    by (simp_all add: installedEnv_def exampleFiles_def)
  have t: "target modelsState ''User'' = None" "map_of coreClasses ''User'' = None"
    "v_classMap modelsState ''User'' = None" "''User'' \<notin> set inheritedKeys"
    by (simp_all add: modelsState_eq exampleAppState_fields baseMethods_def coreClasses_def
        inheritedKeys_def objectPrototype_def)
  have j: "path_join [Some ''/srv'', Some (''User'' @ ''.js'')] = ''/srv/User.js''"
    by (simp add: path_defs)
  have r: "require installedEnv ''/srv/User.js'' = Some ?home"
    by (simp add: installedEnv_def exampleModules_def)
  have 9: "target (snd (registryGet installedEnv modelsState ''User'')) ''User'' = Some ?home"
    using include_paths_start_at_cwd [of modelsState _ _ installedEnv _ _ _ "''/srv''" "[''/srv/app/models'']" _ _ _ "''User''"]
      example_states_ordinary(2) t 6 8(1) j r by simp
  have ta: "target modelsState ''Account'' = None" "map_of coreClasses ''Account'' = None"
    "v_classMap modelsState ''Account'' = None" "''Account'' \<notin> set inheritedKeys"
    by (simp_all add: modelsState_eq exampleAppState_fields baseMethods_def coreClasses_def
        inheritedKeys_def objectPrototype_def)
  have ja: "path_join [Some ''/srv'', Some (''Account'' @ ''.js'')] = ''/srv/Account.js''"
    by (simp add: path_defs)
  have fa: "firstClassFile installedEnv ''Account'' [''/srv/app/models''] = Some ''/srv/app/models/Account.js''"
    by (simp add: firstClassFile_def installedEnv_def exampleFiles_def path_defs)
  have ra: "require installedEnv ''/srv/app/models/Account.js'' = Some ?account"
    by (simp add: installedEnv_def exampleModules_def)
  have 10: "target (snd (registryGet installedEnv modelsState ''Account'')) ''Account'' = Some ?account"
    using include_paths_start_at_cwd [of modelsState _ _ installedEnv _ _ _ "''/srv''" "[''/srv/app/models'']" _ _ _ "''Account''"]
      example_states_ordinary(2) ta 6 8(3) ja fa ra by simp
  from 1 5 6 7 8 9 10 show ?thesis by simp
qed

section \<open>Construction of components\<close>

lemma componentType_descriptor:
  "map_of obj ''class'' = Some v \<Longrightarrow> map_of obj ''hasOwnProperty'' = None \<Longrightarrow>
   componentType e s (CfgObj False obj) =
     (Inr (v, AList.delete ''class'' obj), s, CfgObj False (AList.delete ''class'' obj))"
  by (simp add: componentType_def descriptorRead_def inherited_def objectPrototype_def
      hasOwnPropertyCall_def nativeHasOwnProperty_def)

lemma createComponent_descriptor:
  "componentType e s cfg = (r, s1, cfg1) \<Longrightarrow> snd (snd (createComponent e s cfg args)) = cfg1"
  by (auto simp: createComponent_def split: sum.splits prod.splits)

text \<open>
  Claim C9, as stated, fails for a descriptor that the code cannot take the key from. The file
  is in strict mode, so on a descriptor whose \<open>class\<close> property is locked (a frozen object,
  say) \<open>delete config['class']\<close> raises a type error and the key stays. And
  \<open>config.hasOwnProperty('class')\<close> is a call through the descriptor: when the descriptor has
  a property of its own named \<open>hasOwnProperty\<close> that is not a function, the call raises
  before anything is deleted.
\<close>

theorem locked_descriptor_keeps_class:
  "createComponent installedEnv exampleAppState
      (CfgObj True [(''class'', JStr ''CLogger''), (''level'', JStr ''trace'')]) []
     = (Inl TypeError, exampleAppState,
        CfgObj True [(''class'', JStr ''CLogger''), (''level'', JStr ''trace'')])
   \<and> createComponent installedEnv exampleAppState
      (CfgObj False [(''class'', JStr ''CLogger''), (''hasOwnProperty'', JStr ''x'')]) []
     = (Inl TypeError, exampleAppState,
        CfgObj False [(''class'', JStr ''CLogger''), (''hasOwnProperty'', JStr ''x'')])"
  by (simp add: createComponent_def componentType_def descriptorRead_def inherited_def
      objectPrototype_def hasOwnPropertyCall_def nativeHasOwnProperty_def)

text \<open>
  Claim C9, amended. Given a descriptor object that has a \<open>class\<close> property of its own which
  is not locked, and no property of its own named \<open>hasOwnProperty\<close>, \<open>createComponent\<close>
  deletes \<open>class\<close> from the caller's object before it resolves and constructs anything:
  whether the call returns an instance or raises, the descriptor it leaves behind is the one
  passed in without \<open>class\<close>, its other properties unchanged and in the same order.
\<close>

theorem createComponent_deletes_class:
  assumes "map_of obj ''class'' = Some v" and "map_of obj ''hasOwnProperty'' = None"
  shows "snd (snd (createComponent e s (CfgObj False obj) args))
           = CfgObj False (filter (\<lambda>kv. fst kv \<noteq> ''class'') obj)"
proof -
  have "AList.delete ''class'' obj = filter (\<lambda>kv. fst kv \<noteq> ''class'') obj"
    by (induction obj) auto
  then show ?thesis
    using createComponent_descriptor [OF componentType_descriptor [OF assms]] by simp
qed

text \<open>
  A descriptor for the core logger with one more property gives a logger with that property
  and loses its \<open>class\<close>; a descriptor for a type that does not resolve loses it as well,
  though the call raises.
\<close>

theorem createComponent_deletes_class_witness:
  "map_of [(''class'', JStr ''CLogger''), (''level'', JStr ''trace'')] ''class'' = Some (JStr ''CLogger'')
   \<and> createComponent installedEnv exampleAppState
         (CfgObj False [(''class'', JStr ''CLogger''), (''level'', JStr ''trace'')]) [JStr ''app'']
       = (Inr (JInst ''function CLogger() {}'' [JStr ''app''] [(''level'', JStr ''trace'')]),
          bindClass exampleAppState ''CLogger'' (JFun ''function CLogger() {}''),
          CfgObj False [(''level'', JStr ''trace'')])
   \<and> createComponent installedEnv exampleAppState
         (CfgObj False [(''level'', JStr ''trace''), (''class'', JStr ''Nope'')]) []
       = (Inl TypeError, exampleAppState, CfgObj False [(''level'', JStr ''trace'')])"
proof -
  let ?logger = "JFun ''function CLogger() {}''"
  let ?s1 = "bindClass exampleAppState ''CLogger'' ?logger"
  have 1: "map_of [(''class'', JStr ''CLogger''), (''level'', JStr ''trace'')] ''class'' = Some (JStr ''CLogger'')"
    "map_of [(''class'', JStr ''CLogger''), (''level'', JStr ''trace'')] ''hasOwnProperty'' = None"
    by simp_all
  have 2: "map_of [(''level'', JStr ''trace''), (''class'', JStr ''Nope'')] ''class'' = Some (JStr ''Nope'')"
    "map_of [(''level'', JStr ''trace''), (''class'', JStr ''Nope'')] ''hasOwnProperty'' = None"
    by simp_all
  have i: "''CLogger'' \<notin> set inheritedKeys" "''Nope'' \<notin> set inheritedKeys"
    by (simp_all add: inheritedKeys_def objectPrototype_def)
  have t: "target exampleAppState ''CLogger'' = None" "target exampleAppState ''Nope'' = None"
    by (simp_all add: exampleAppState_fields baseMethods_def)
  have g1: "registryGet installedEnv exampleAppState ''CLogger'' = (Inr ?logger, ?s1)"
    unfolding registryGet_unbound [OF example_states_ordinary(1) t(1) i(1)]
    by (simp add: coreClasses_def path_defs installedEnv_def exampleModules_def)
  have o1: "ordinaryTarget ?s1" "target ?s1 ''CLogger'' = Some ?logger"
    using example_states_ordinary(1)
    by (simp_all add: ordinaryTables_def ordinaryTarget_def bindClass_def)
  have g2: "registryGet installedEnv ?s1 ''CLogger'' = (Inr ?logger, ?s1)"
    by (rule registryGet_bound [OF o1])
  have g3: "registryGet installedEnv exampleAppState ''Nope'' = (Inr JUndefined, exampleAppState)"
    unfolding registryGet_unbound [OF example_states_ordinary(1) t(2) i(2)]
    by (simp add: coreClasses_def exampleAppState_fields)
  have m: "importAlias installedEnv exampleAppState (JStr ''Nope'') True = (Inr (JStr ''Nope''), exampleAppState)"
    by (simp add: import_defs table_defs exampleAppState_fields g3)
  have a: "fst (createComponent installedEnv exampleAppState
         (CfgObj False [(''class'', JStr ''CLogger''), (''level'', JStr ''trace'')]) [JStr ''app''])
       = Inr (JInst ''function CLogger() {}'' [JStr ''app''] [(''level'', JStr ''trace'')])"
    by (simp add: createComponent_def componentType_descriptor [OF 1] resolveType_def construct_def g1 g2)
  have b: "fst (snd (createComponent installedEnv exampleAppState
         (CfgObj False [(''class'', JStr ''CLogger''), (''level'', JStr ''trace'')]) [JStr ''app''])) = ?s1"
    by (simp add: createComponent_def componentType_descriptor [OF 1] resolveType_def construct_def g1 g2)
  have c: "fst (createComponent installedEnv exampleAppState
         (CfgObj False [(''level'', JStr ''trace''), (''class'', JStr ''Nope'')]) []) = Inl TypeError"
    by (simp add: createComponent_def componentType_descriptor [OF 2] resolveType_def construct_def g3 m)
  have d: "fst (snd (createComponent installedEnv exampleAppState
         (CfgObj False [(''level'', JStr ''trace''), (''class'', JStr ''Nope'')]) [])) = exampleAppState"
    by (simp add: createComponent_def componentType_descriptor [OF 2] resolveType_def construct_def g3 m)
  from createComponent_deletes_class [OF 1, of installedEnv exampleAppState "[JStr ''app'']"]
    createComponent_deletes_class [OF 2, of installedEnv exampleAppState "[]"] 1 a b c d
  show ?thesis by (simp add: prod_eq_iff)
qed

text \<open>
  Claim C4 does not hold of the code. For a string the function sets \<open>type = this[config]\<close>,
  the implementation and not its name. When that is a constructor function, \<open>this[type]\<close>
  reads the property whose key is the function's source text; unless that text happens to name a
  type or an imported alias, the lookup yields \<open>undefined\<close>, the function goes on to
  \<open>this.import(type, true)\<close>, and \<open>import\<close> calls \<open>lastIndexOf\<close> on a function:
  the call raises a type error and constructs nothing.
\<close>

theorem createComponent_of_type_name_raises:
  assumes "registryGet e s c = (Inr (JFun f), s1)"
    and "registryGet e s1 f = (Inr JUndefined, s2)"
    and "importedAs s2 f = None"
  shows "createComponent e s (CfgStr c) args = (Inl TypeError, s2, CfgStr c)"
  using assms
  by (simp add: createComponent_def componentType_def resolveType_def importAlias_def)

text \<open>
  \<open>createComponent('CLogger')\<close> on the example process: the registry resolves \<open>CLogger\<close>
  to the logger's constructor, and the call raises.
\<close>

theorem createComponent_of_type_name_raises_witness:
  "registryGet installedEnv exampleAppState ''CLogger''
     = (Inr (JFun ''function CLogger() {}''), bindClass exampleAppState ''CLogger'' (JFun ''function CLogger() {}''))
   \<and> createComponent installedEnv exampleAppState (CfgStr ''CLogger'') []
     = (Inl TypeError, bindClass exampleAppState ''CLogger'' (JFun ''function CLogger() {}''), CfgStr ''CLogger'')"
proof -
  let ?s1 = "bindClass exampleAppState ''CLogger'' (JFun ''function CLogger() {}'')"
  have i: "''CLogger'' \<notin> set inheritedKeys" "''function CLogger() {}'' \<notin> set inheritedKeys"
    by (simp_all add: inheritedKeys_def objectPrototype_def)
  have t: "target exampleAppState ''CLogger'' = None"
    by (simp add: exampleAppState_fields baseMethods_def)
  have 1: "registryGet installedEnv exampleAppState ''CLogger'' = (Inr (JFun ''function CLogger() {}''), ?s1)"
    unfolding registryGet_unbound [OF example_states_ordinary(1) t i(1)]
    by (simp add: coreClasses_def path_defs installedEnv_def exampleModules_def)
  have o: "ordinaryTables ?s1" "target ?s1 ''function CLogger() {}'' = None"
    using example_states_ordinary(1)
    by (simp_all add: ordinaryTables_def ordinaryTarget_def bindClass_def exampleAppState_fields
        baseMethods_def)
  have 2: "registryGet installedEnv ?s1 ''function CLogger() {}'' = (Inr JUndefined, ?s1)"
    unfolding registryGet_unbound [OF o i(2)]
    by (simp add: coreClasses_def bindClass_def exampleAppState_fields)
  have 3: "importedAs ?s1 ''function CLogger() {}'' = None"
    by (simp add: importedAs_def bindClass_def exampleAppState_fields table_defs)
  from createComponent_of_type_name_raises [OF 1 2 3, of "[]"] 1 show ?thesis by simp
qed

end
